theory Spec2Isabelle
  imports Main "HOL-Library.Sublist" "HOL-Library.List_Lexorder"
begin

section \<open>ReaPack: index model, package model, downloads and transactions\<close>

text \<open>
  A shallow embedding of the parts of ReaPack that the specification talks about:
  \<^item> \<open>src/index.cpp\<close>: \<open>RemoteIndex::load\<close>, \<open>RemoteIndex::addCategory\<close>,
    \<open>RemoteIndex::addLink\<close>, \<open>Category::addPackage\<close> and the constructors;
  \<^item> \<open>src/package.hpp\<close>: the \<open>Package\<close> class (its member functions are declared
    there; their bodies live in \<open>package.cpp\<close>);
  \<^item> \<open>src/download.cpp\<close>: \<open>Download::run\<close>;
  \<^item> \<open>src/transaction.cpp\<close>: the whole \<open>Transaction\<close> class.

  C++ objects are records. A pointer to an object is the address of the object
  (\<open>addr\<close>), a null pointer is \<open>None\<close>. A \<open>throw\<close> is the left injection of a sum.
  Calls into collaborators whose code is elsewhere (task commit and rollback, the
  registry, the observers, libcurl) are recorded as events of a trace, in call order.
\<close>

subsection \<open>Data model\<close>

type_synonym addr = nat

text \<open>A \<open>Path\<close> is a list of segments; \<open>operator+\<close> appends the segments.\<close>

type_synonym path = "string list"

datatype error = reapack_error string | null_dereference

datatype package_type = UnknownType | ScriptType

record source =
  src_url :: string
  src_targetPath :: path

record version =
  ver_name :: string
  ver_sources :: "source list"
  ver_files :: "path list"

record package =
  pkg_category :: "addr option"
  pkg_type :: package_type
  pkg_name :: string
  pkg_versions :: "version list"

record category =
  cat_this :: addr
  cat_index :: "addr option"
  cat_name :: string
  cat_packages :: "package list"

datatype link_type = WebsiteLink | DonationLink

record link =
  link_name :: string
  link_url :: string

record remote_index =
  ri_this :: addr
  ri_name :: string
  ri_categories :: "category list"
  ri_packages :: "package list"
  ri_links :: "(link_type \<times> link) list"

subsection \<open>index.cpp\<close>

text \<open>\<open>RemoteIndex::linkTypeFor\<close>: \<open>"donation"\<close> is a donation link, anything else a website.\<close>

definition linkTypeFor :: "string \<Rightarrow> link_type" where
  "linkTypeFor rel = (if rel = ''donation'' then DonationLink else WebsiteLink)"

text \<open>The constructors throw on an empty name. \<open>this\<close> is the address the object is built at.\<close>

definition RemoteIndex_new :: "addr \<Rightarrow> string \<Rightarrow> error + remote_index" where
  "RemoteIndex_new this name =
     (if name = [] then Inl (reapack_error ''empty index name'')
      else Inr \<lparr>ri_this = this, ri_name = name, ri_categories = [], ri_packages = [],
                ri_links = []\<rparr>)"

definition Category_new :: "addr \<Rightarrow> string \<Rightarrow> addr option \<Rightarrow> error + category" where
  "Category_new this name ri =
     (if name = [] then Inl (reapack_error ''empty category name'')
      else Inr \<lparr>cat_this = this, cat_index = ri, cat_name = name, cat_packages = []\<rparr>)"

text \<open>
  \<open>RemoteIndex::addCategory\<close>: throws when the category's index pointer is not \<open>this\<close>,
  returns without a change when the category has no package, and otherwise appends the
  category to \<open>m_categories\<close> and its packages to \<open>m_packages\<close>.
\<close>

definition addCategory :: "remote_index \<Rightarrow> category \<Rightarrow> error + remote_index" where
  "addCategory ri cat =
     (if cat_index cat \<noteq> Some (ri_this ri)
        then Inl (reapack_error ''category belongs to another index'')
      else if cat_packages cat = [] then Inr ri
      else Inr (ri\<lparr>ri_categories := ri_categories ri @ [cat],
                    ri_packages := ri_packages ri @ cat_packages cat\<rparr>))"

text \<open>
  \<open>Category::addPackage\<close>: throws when the package's category pointer is not \<open>this\<close>,
  returns without a change for an unknown package type or a package without versions,
  and otherwise appends the package.
\<close>

definition addPackage :: "category \<Rightarrow> package \<Rightarrow> error + category" where
  "addPackage cat pkg =
     (if pkg_category pkg \<noteq> Some (cat_this cat)
        then Inl (reapack_error ''package belongs to another category'')
      else if pkg_type pkg = UnknownType then Inr cat
      else if pkg_versions pkg = [] then Inr cat
      else Inr (cat\<lparr>cat_packages := cat_packages cat @ [pkg]\<rparr>))"

text \<open>
  \<open>m_links\<close> is a \<open>std::multimap\<close> from link type to link: entries are kept in key
  order, and an inserted entry goes after the entries with the same key. The order of
  the keys is the order of the enumeration \<open>LinkType\<close> (declared in \<open>index.hpp\<close>;
  taken here as \<open>WebsiteLink\<close> before \<open>DonationLink\<close>; the links of one type are the
  same with the other order).
\<close>

fun link_rank :: "link_type \<Rightarrow> nat" where
  "link_rank WebsiteLink = 0"
| "link_rank DonationLink = 1"

fun multimap_insert :: "link_type \<times> link \<Rightarrow> (link_type \<times> link) list \<Rightarrow> (link_type \<times> link) list" where
  "multimap_insert e [] = [e]"
| "multimap_insert e (x # xs) =
     (if link_rank (fst e) < link_rank (fst x) then e # x # xs
      else x # multimap_insert e xs)"

text \<open>\<open>boost::algorithm::starts_with(input, test)\<close>: \<open>test\<close> is a prefix of \<open>input\<close>.\<close>

definition starts_with :: "string \<Rightarrow> string \<Rightarrow> bool" where
  "starts_with input test = (take (length test) input = test)"

text \<open>\<open>RemoteIndex::addLink\<close>: the link is stored when its URL starts with \<open>http\<close>.\<close>

definition addLink :: "remote_index \<Rightarrow> link_type \<Rightarrow> link \<Rightarrow> remote_index" where
  "addLink ri type l =
     (if starts_with (link_url l) ''http''
        then ri\<lparr>ri_links := multimap_insert (type, l) (ri_links ri)\<rparr>
      else ri)"

text \<open>\<open>RemoteIndex::links\<close>: the links of one type, in stored order.\<close>

definition links :: "remote_index \<Rightarrow> link_type \<Rightarrow> link list" where
  "links ri type = map snd (filter (\<lambda>e. fst e = type) (ri_links ri))"

text \<open>
  The document that \<open>OpenFile\<close> and \<open>TiXmlDocument::LoadFile\<close> produce for the index
  file: the file cannot be opened (with \<open>strerror(errno)\<close>), the XML does not load (with
  \<open>doc.ErrorDesc()\<close>), or a document with its root element (\<open>RootElement()\<close> is null
  for a document without an element).
\<close>

datatype element =
  Element (el_value: string) (el_attributes: "(string \<times> string) list") (el_children: "element list")

datatype xml_file = CannotOpen string | LoadFailed string | Document "element option"

definition is_digit :: "char \<Rightarrow> bool" where
  "is_digit c = (48 \<le> (of_char c :: nat) \<and> (of_char c :: nat) \<le> 57)"

definition digit_val :: "char \<Rightarrow> nat" where
  "digit_val c = of_char c - 48"

definition isspace :: "char \<Rightarrow> bool" where
  "isspace c = ((of_char c :: nat) = 32 \<or> (9 \<le> (of_char c :: nat) \<and> (of_char c :: nat) \<le> 13))"

fun digits_value :: "nat \<Rightarrow> string \<Rightarrow> nat" where
  "digits_value acc [] = acc"
| "digits_value acc (c # cs) =
     (if is_digit c then digits_value (10 * acc + digit_val c) cs else acc)"

text \<open>
  The C library's \<open>strtol\<close> in base 10, as \<open>atoi\<close> uses it: leading white space, an
  optional sign, then the decimal digits read (\<open>0\<close> when there is none); a value
  outside the range of \<open>long\<close> (64 bits) is replaced by the nearest bound.
\<close>

definition strtol :: "string \<Rightarrow> int" where
  "strtol s =
     (let v = (case dropWhile isspace s of
                 [] \<Rightarrow> 0
               | c # cs \<Rightarrow>
                   if c = CHR ''-'' then - int (digits_value 0 cs)
                   else if c = CHR ''+'' then int (digits_value 0 cs)
                   else int (digits_value 0 (c # cs)))
      in max (- 9223372036854775808) (min 9223372036854775807 v))"

text \<open>
  The conversion of a \<open>long\<close> to the 32-bit \<open>int\<close>: the value modulo \<open>2 ^ 32\<close>, read
  as a signed number. \<open>atoi\<close> is \<open>(int) strtol(s, NULL, 10)\<close> (the C library of the
  GNU system, where \<open>long\<close> has 64 bits): \<open>4294967297\<close> is read as \<open>1\<close> and
  \<open>4294967296\<close> as \<open>0\<close>.
\<close>

definition int_of_long :: "int \<Rightarrow> int" where
  "int_of_long v = (v + 2147483648) mod 4294967296 - 2147483648"

definition atoi :: "string \<Rightarrow> int" where
  "atoi s = int_of_long (strtol s)"

text \<open>
  \<open>int version = 0; root->Attribute("version", &version)\<close>: the attribute's value read
  by \<open>atoi\<close> into the \<open>int\<close>; \<open>version\<close> is \<open>0\<close> when the attribute is missing.
\<close>

definition Attribute_int :: "element \<Rightarrow> string \<Rightarrow> int" where
  "Attribute_int e name =
     (case map_of (el_attributes e) name of None \<Rightarrow> 0 | Some v \<Rightarrow> atoi v)"

text \<open>
  \<open>RemoteIndex::load\<close>. The reader of version 1 documents (\<open>loadV1\<close>, in
  \<open>index_v1.cpp\<close>, which is not among the sources) is a parameter of \<open>load\<close>; a
  model of it follows in a subsection of its own. \<open>root->Value()\<close> on a null root is a
  null dereference.
\<close>

definition load ::
  "(element \<Rightarrow> string \<Rightarrow> error + remote_index) \<Rightarrow> xml_file \<Rightarrow> string \<Rightarrow> error + remote_index" where
  "load loadV1 file name =
     (case file of
        CannotOpen e \<Rightarrow> Inl (reapack_error e)
      | LoadFailed d \<Rightarrow> Inl (reapack_error d)
      | Document None \<Rightarrow> Inl null_dereference
      | Document (Some root) \<Rightarrow>
          if el_value root \<noteq> ''index'' then Inl (reapack_error ''invalid index'')
          else let version = Attribute_int root ''version'' in
            if version = 0 then Inl (reapack_error ''invalid version'')
            else if version = 1 then loadV1 root name
            else Inl (reapack_error ''unsupported version''))"

subsection \<open>package.hpp\<close>

text \<open>
  The class \<open>Package\<close> is declared in \<open>package.hpp\<close>; the bodies of its constructor, of
  \<open>addVersion\<close> and of \<open>lastVersion\<close> are in \<open>package.cpp\<close>, and the order of
  \<open>VersionSet\<close> is in \<open>version.hpp\<close>. The tests in \<open>test/package.cpp\<close> use them.
\<close>

text \<open>Modelled from the spec: the constructor of \<open>Package\<close> (\<open>package.cpp\<close>); the test
  \<open>empty package name\<close> expects the \<open>reapack_error\<close>.\<close>

definition Package_new :: "package_type \<Rightarrow> string \<Rightarrow> error + package" where
  "Package_new type name =
     (if name = [] then Inl (reapack_error ''empty package name'')
      else Inr \<lparr>pkg_category = None, pkg_type = type, pkg_name = name, pkg_versions = []\<rparr>)"

definition setCategory :: "package \<Rightarrow> addr option \<Rightarrow> package" where
  "setCategory pkg cat = pkg\<lparr>pkg_category := cat\<rparr>"

text \<open>Modelled from the spec: the comparison of version names (\<open>version.hpp\<close>,
  \<open>version.cpp\<close>), "numeric-segment comparison, not string comparison": the name is cut
  into its maximal runs of decimal digits, each run is read as a number, and the lists of
  numbers are compared segment by segment (a proper prefix is smaller).\<close>

fun segments :: "nat option \<Rightarrow> string \<Rightarrow> nat list" where
  "segments None [] = []"
| "segments (Some n) [] = [n]"
| "segments None (c # cs) =
     (if is_digit c then segments (Some (digit_val c)) cs else segments None cs)"
| "segments (Some n) (c # cs) =
     (if is_digit c then segments (Some (10 * n + digit_val c)) cs else n # segments None cs)"

text \<open>Modelled from the spec: the key a version is ordered by in \<open>VersionSet\<close>
  (\<open>version.hpp\<close>), the segments of its name.\<close>

definition version_key :: "version \<Rightarrow> nat list" where
  "version_key v = segments None (ver_name v)"

text \<open>Modelled from the spec: \<open>VersionSet\<close>, "an ordered set of Version sorted ascending
  by version-name comparison": insertion keeps the order, and an element that compares
  equal to a stored one is not inserted (\<open>std::set::insert\<close>).\<close>

fun VersionSet_insert :: "version \<Rightarrow> version list \<Rightarrow> version list" where
  "VersionSet_insert v [] = [v]"
| "VersionSet_insert v (w # ws) =
     (if version_key v < version_key w then v # w # ws
      else if version_key w < version_key v then w # VersionSet_insert v ws
      else w # ws)"

text \<open>Modelled from the spec: \<open>Package::addVersion\<close> (\<open>package.cpp\<close>), "a Version
  added with zero sources is rejected/dropped"; any other version enters the set.\<close>

definition addVersion :: "package \<Rightarrow> version \<Rightarrow> package" where
  "addVersion pkg ver =
     (if ver_sources ver = [] then pkg
      else pkg\<lparr>pkg_versions := VersionSet_insert ver (pkg_versions pkg)\<rparr>)"

text \<open>Modelled from the spec: \<open>Package::lastVersion\<close> (\<open>package.cpp\<close>), "the version with
  the greatest version-name ordering": the last element of the ordered set, and a null
  pointer for an empty set (the test \<open>drop empty version\<close>).\<close>

definition lastVersion :: "package \<Rightarrow> version option" where
  "lastVersion pkg = (if pkg_versions pkg = [] then None else Some (last (pkg_versions pkg)))"

subsection \<open>The reader of version 1 documents\<close>

text \<open>
  \<open>RemoteIndex::loadV1\<close> is in \<open>index_v1.cpp\<close>, which is not among the sources, and the
  specification leaves the grammar of the document out. What the reader finds in a
  document is therefore a parameter (\<open>contents\<close>): the categories the document
  describes, each with its packages, their versions and the sources of each version. A
  source is described by its URL (the empty string when the document gives none) and its
  target path.
\<close>

record v1_source =
  vs_url :: string
  vs_file :: path

record v1_version =
  vv_name :: string
  vv_sources :: "v1_source list"

record v1_package =
  vp_type :: string
  vp_name :: string
  vp_versions :: "v1_version list"

record v1_category =
  vc_name :: string
  vc_packages :: "v1_package list"

text \<open>Modelled from the spec: \<open>Package::convertType\<close> (declared in \<open>package.hpp\<close>, its
  body in \<open>package.cpp\<close>): the test \<open>package type from string\<close> expects \<open>ScriptType\<close> for
  \<open>script\<close> and \<open>UnknownType\<close> otherwise.\<close>

definition convertType :: "string \<Rightarrow> package_type" where
  "convertType t = (if t = ''script'' then ScriptType else UnknownType)"

text \<open>Modelled from the spec: the construction of a \<open>Source\<close> (\<open>source.cpp\<close>), which
  fails for "a Source missing a mandatory URL".\<close>

definition Source_new :: "string \<Rightarrow> path \<Rightarrow> error + source" where
  "Source_new url file =
     (if url = [] then Inl (reapack_error ''empty source url'')
      else Inr \<lparr>src_url = url, src_targetPath = file\<rparr>)"

text \<open>Modelled from the spec: a \<open>Version\<close> (\<open>version.cpp\<close>) with "an ordered list of
  Source"; its files are the target paths of its sources.\<close>

definition Version_new :: "string \<Rightarrow> source list \<Rightarrow> version" where
  "Version_new name srcs =
     \<lparr>ver_name = name, ver_sources = srcs, ver_files = remdups (map src_targetPath srcs)\<rparr>"

text \<open>Modelled from the spec: \<open>RemoteIndex::loadV1\<close> (\<open>index_v1.cpp\<close>). The index, its
  categories, packages, versions and sources are built in the order of the document with
  the constructors and with \<open>addVersion\<close>, \<open>addPackage\<close> and \<open>addCategory\<close>; an error
  of any of them ends the reading ("parse(bytes) -> Index | ParseError"). Of the
  failures the contract lists, the root tag and the version attribute (missing,
  unsupported, or of a syntax that \<open>atoi\<close> reads as \<open>0\<close>) are tested by \<open>load\<close>
  before the reader is called; the reader is left with the source without URL and with
  the empty names that the constructors refuse. The index is built at the address
  \<open>this\<close>, the categories at the addresses that follow.\<close>

fun loadV1_sources :: "v1_source list \<Rightarrow> error + source list" where
  "loadV1_sources [] = Inr []"
| "loadV1_sources (s # ss) =
     (case Source_new (vs_url s) (vs_file s) of
        Inl e \<Rightarrow> Inl e
      | Inr x \<Rightarrow>
          (case loadV1_sources ss of Inl e \<Rightarrow> Inl e | Inr xs \<Rightarrow> Inr (x # xs)))"

fun loadV1_versions :: "package \<Rightarrow> v1_version list \<Rightarrow> error + package" where
  "loadV1_versions pkg [] = Inr pkg"
| "loadV1_versions pkg (v # vs) =
     (case loadV1_sources (vv_sources v) of
        Inl e \<Rightarrow> Inl e
      | Inr srcs \<Rightarrow> loadV1_versions (addVersion pkg (Version_new (vv_name v) srcs)) vs)"

fun loadV1_packages :: "category \<Rightarrow> v1_package list \<Rightarrow> error + category" where
  "loadV1_packages cat [] = Inr cat"
| "loadV1_packages cat (p # ps) =
     (case Package_new (convertType (vp_type p)) (vp_name p) of
        Inl e \<Rightarrow> Inl e
      | Inr pkg \<Rightarrow>
          (case loadV1_versions (setCategory pkg (Some (cat_this cat))) (vp_versions p) of
             Inl e \<Rightarrow> Inl e
           | Inr pkg' \<Rightarrow>
               (case addPackage cat pkg' of
                  Inl e \<Rightarrow> Inl e
                | Inr cat' \<Rightarrow> loadV1_packages cat' ps)))"

fun loadV1_categories :: "remote_index \<Rightarrow> addr \<Rightarrow> v1_category list \<Rightarrow> error + remote_index" where
  "loadV1_categories ri a [] = Inr ri"
| "loadV1_categories ri a (c # cs) =
     (case Category_new a (vc_name c) (Some (ri_this ri)) of
        Inl e \<Rightarrow> Inl e
      | Inr cat \<Rightarrow>
          (case loadV1_packages cat (vc_packages c) of
             Inl e \<Rightarrow> Inl e
           | Inr cat' \<Rightarrow>
               (case addCategory ri cat' of
                  Inl e \<Rightarrow> Inl e
                | Inr ri' \<Rightarrow> loadV1_categories ri' (Suc a) cs)))"

definition loadV1 ::
  "(element \<Rightarrow> v1_category list) \<Rightarrow> addr \<Rightarrow> element \<Rightarrow> string \<Rightarrow> error + remote_index" where
  "loadV1 contents this root name =
     (case RemoteIndex_new this name of
        Inl e \<Rightarrow> Inl e
      | Inr ri \<Rightarrow> loadV1_categories ri (Suc this) (contents root))"

subsection \<open>download.cpp\<close>

datatype dl_state = Idle | Running | Success | Failure | Aborted

record download =
  dl_name :: string
  dl_url :: string
  dl_proxy :: string
  dl_verifyPeer :: bool
  dl_noCache :: bool
  dl_aborted :: bool

text \<open>
  What one call of \<open>curl_easy_perform\<close> gives back: the result code (\<open>0\<close> is
  \<open>CURLE_OK\<close>), \<open>curl_easy_strerror\<close> of it, the error buffer, and whether the abort
  flag was raised while the transfer ran.
\<close>

record transfer =
  tr_res :: nat
  tr_strerror :: string
  tr_errbuf :: string
  tr_aborted :: bool

text \<open>
  The calls \<open>Download::run\<close> makes, in order: the notification of the running job,
  the options of the transfer (URL, proxy, peer verification, the progress callback
  with its data, the write callback with its data, the headers, the error buffer), the
  transfer, \<open>finish\<close> and the release of the headers.
\<close>

datatype dl_event =
    Notify dl_state
  | Curl_setopt_url string
  | Curl_setopt_proxy string
  | Curl_setopt_verifyPeer bool
  | Curl_setopt_progress
  | Curl_setopt_write
  | Curl_setopt_headers "string list"
  | Curl_setopt_errorbuffer
  | Curl_perform
  | Finish dl_state string
  | Curl_slist_free

definition digit_char :: "nat \<Rightarrow> char" where
  "digit_char n = ''0123456789'' ! (n mod 10)"

fun show_nat :: "nat \<Rightarrow> string" where
  "show_nat n = (if n < 10 then [digit_char n] else show_nat (n div 10) @ [digit_char (n mod 10)])"

definition aborted :: "download \<Rightarrow> bool" where
  "aborted dl = dl_aborted dl"

text \<open>
  \<open>Download::run\<close>: a job that is already aborted finishes as \<open>Aborted\<close> and returns;
  otherwise the transfer is set up and performed, and the job finishes as \<open>Aborted\<close>,
  \<open>Failure\<close> or \<open>Success\<close>.
\<close>

definition run :: "download \<Rightarrow> transfer \<Rightarrow> dl_event list" where
  "run dl tr =
     (if aborted dl then [Finish Aborted ''cancelled'']
      else
        [Notify Running,
         Curl_setopt_url (dl_url dl),
         Curl_setopt_proxy (dl_proxy dl),
         Curl_setopt_verifyPeer (dl_verifyPeer dl),
         Curl_setopt_progress,
         Curl_setopt_write,
         Curl_setopt_headers (if dl_noCache dl then [''Cache-Control: no-cache''] else []),
         Curl_setopt_errorbuffer,
         Curl_perform]
        @ [if tr_aborted tr then Finish Aborted ''aborted by user''
           else if tr_res tr \<noteq> 0 then
             Finish Failure (tr_strerror tr @ '' ('' @ show_nat (tr_res tr) @ ''): '' @ tr_errbuf tr)
           else Finish Success '''']
        @ [Curl_slist_free])"

subsection \<open>transaction.cpp\<close>

datatype step = Unknown | Synchronize | Install

text \<open>
  \<open>Registry::Entry\<close> and its status. The registry (\<open>registry.hpp\<close>), the file system,
  \<open>Path::join\<close> and the loader of a saved index are collaborators: what they answer
  is a parameter of the model, the record \<open>world\<close>.
\<close>

datatype reg_status = Uninstalled | UpToDate | UpdateAvailable | Obsolete

record entry =
  ent_id :: nat
  ent_status :: reg_status

record remote =
  rem_name :: string
  rem_url :: string

text \<open>A finished \<open>Download\<close> as \<open>saveRemoteIndex\<close> and \<open>saveFile\<close> read it.\<close>

record finished_download =
  fd_name :: string
  fd_url :: string
  fd_status :: int
  fd_contents :: string

record world =
  reg_query :: "package \<Rightarrow> entry"
  reg_queryAll :: "remote \<Rightarrow> entry list"
  reg_getFiles :: "entry \<Rightarrow> path list"
  file_exists :: "string \<Rightarrow> bool"
  path_join :: "path \<Rightarrow> string"
  path_dirname :: "path \<Rightarrow> string"
  open_error :: "string \<Rightarrow> string option"
  RemoteIndex_load :: "string \<Rightarrow> string \<Rightarrow> string \<Rightarrow> error + remote_index"

text \<open>
  A task is an \<open>InstallTask\<close> (of a version, with the files the registry holds for the
  package) or a \<open>RemoveTask\<close> (of a set of files).
\<close>

datatype task = InstallTask version "path list" | RemoveTask "path list"

text \<open>The calls a transaction makes into its collaborators, in order.\<close>

datatype event =
    Task_commit task
  | Task_rollback task
  | Registry_commit
  | OnFinish
  | OnDestroy
  | Queue_push string string
  | Queue_abort
  | CreateDirectory string
  | WriteFile string string

text \<open>
  The members of \<open>Transaction\<close>. \<open>m_queue\<close> is the number of jobs of the download
  queue that have not finished; \<open>trace\<close> is the list of the calls made so far.
  (\<open>m_new\<close>, \<open>m_updates\<close> and \<open>m_removals\<close> are written only by the commit callbacks,
  which \<open>Task::commit\<close> runs; they are part of the event \<open>Task_commit\<close>.)
\<close>

record transaction =
  m_root :: path
  m_dbPath :: path
  m_step :: step
  m_isCancelled :: bool
  m_hasConflicts :: bool
  m_remoteIndexes :: "remote_index list"
  m_packages :: "(version \<times> entry) list"
  m_tasks :: "task list"
  m_files :: "path set"
  m_errors :: "(string \<times> string) list"
  m_queue :: nat
  trace :: "event list"

definition emit :: "event list \<Rightarrow> transaction \<Rightarrow> transaction" where
  "emit es s = s\<lparr>trace := trace s @ es\<rparr>"

definition idle :: "transaction \<Rightarrow> bool" where
  "idle s = (m_queue s = 0)"

text \<open>The constructor: the members are initialised and the database directory is created.\<close>

definition Transaction_new :: "world \<Rightarrow> path \<Rightarrow> transaction" where
  "Transaction_new w root =
     \<lparr>m_root = root, m_dbPath = root @ [''ReaPack''], m_step = Unknown,
      m_isCancelled = False, m_hasConflicts = False, m_remoteIndexes = [],
      m_packages = [], m_tasks = [], m_files = {}, m_errors = [], m_queue = 0,
      trace = [CreateDirectory (path_join w (root @ [''ReaPack'']))]\<rparr>"

definition addError :: "string \<Rightarrow> string \<Rightarrow> transaction \<Rightarrow> transaction" where
  "addError message title s = s\<lparr>m_errors := m_errors s @ [(message, title)]\<rparr>"

definition prefixPath :: "transaction \<Rightarrow> path \<Rightarrow> path" where
  "prefixPath s input = m_root s @ input"

text \<open>
  \<open>Transaction::finish\<close>: unless the transaction is cancelled, every task is committed in
  the order of \<open>m_tasks\<close> and then the registry; then the two observers are called.
\<close>

definition finish :: "transaction \<Rightarrow> transaction" where
  "finish s =
     (let s1 = (if \<not> m_isCancelled s
                then emit (map Task_commit (m_tasks s) @ [Registry_commit]) s
                else s)
      in emit [OnFinish, OnDestroy] s1)"

text \<open>\<open>Transaction::addTask\<close>: the task is appended, and an idle queue finishes at once.\<close>

definition addTask :: "task \<Rightarrow> transaction \<Rightarrow> transaction" where
  "addTask t s =
     (let s1 = s\<lparr>m_tasks := m_tasks s @ [t]\<rparr>
      in if idle s1 then finish s1 else s1)"

text \<open>\<open>Transaction::cancel\<close>.\<close>

definition cancel :: "transaction \<Rightarrow> transaction" where
  "cancel s =
     (let s1 = s\<lparr>m_isCancelled := True\<rparr>;
          s2 = emit (map Task_rollback (m_tasks s1)) s1
      in if idle s2 then finish s2 else emit [Queue_abort] s2)"

text \<open>\<open>Transaction::synchronize\<close>: one download of the remote's index is queued.\<close>

definition synchronize :: "remote \<Rightarrow> transaction \<Rightarrow> transaction" where
  "synchronize r s =
     emit [Queue_push (rem_name r) (rem_url r)]
       (s\<lparr>m_step := Synchronize, m_queue := m_queue s + 1\<rparr>)"

text \<open>\<open>Transaction::saveFile\<close>, with its result and the new state.\<close>

definition saveFile :: "world \<Rightarrow> finished_download \<Rightarrow> path \<Rightarrow> transaction \<Rightarrow> bool \<times> transaction" where
  "saveFile w dl p s =
     (if fd_status dl \<noteq> 200 then (False, addError (fd_contents dl) (fd_url dl) s)
      else let s1 = emit [CreateDirectory (path_dirname w p)] s
        in case open_error w (path_join w p) of
             Some e \<Rightarrow> (False, addError e (path_join w p) s1)
           | None \<Rightarrow> (True, emit [WriteFile (path_join w p) (fd_contents dl)] s1))"

text \<open>
  \<open>Transaction::saveRemoteIndex\<close>, the callback of an index download. A \<open>reapack_error\<close>
  of the loader is caught and recorded; nothing catches a null dereference (\<open>None\<close>).
\<close>

definition saveRemoteIndex :: "world \<Rightarrow> finished_download \<Rightarrow> transaction \<Rightarrow> transaction option" where
  "saveRemoteIndex w dl s =
     (let p = m_dbPath s @ [''remote_'' @ fd_name dl @ ''.xml'']
      in case saveFile w dl p s of
           (False, s1) \<Rightarrow> Some s1
         | (True, s1) \<Rightarrow>
             (case RemoteIndex_load w (fd_name dl) (path_join w p) (fd_contents dl) of
                Inr ri \<Rightarrow> Some (s1\<lparr>m_remoteIndexes := m_remoteIndexes s1 @ [ri]\<rparr>)
              | Inl (reapack_error msg) \<Rightarrow> Some (addError msg (fd_url dl) s1)
              | Inl null_dereference \<Rightarrow> None))"

text \<open>\<open>Transaction::allFilesExists\<close>: the loop returns at the first missing file.\<close>

fun allFilesExists :: "world \<Rightarrow> transaction \<Rightarrow> path list \<Rightarrow> bool" where
  "allFilesExists w s [] = True"
| "allFilesExists w s (p # ps) =
     (if \<not> file_exists w (path_join w (prefixPath s p)) then False
      else allFilesExists w s ps)"

text \<open>
  \<open>Transaction::registerFiles\<close>. The loop records a conflict for every path of the list
  that \<open>m_files\<close> holds already; the list is inserted after the loop. (A set of paths is
  given as the list of its elements in iteration order.)
\<close>

fun registerFiles_loop :: "world \<Rightarrow> path list \<Rightarrow> transaction \<Rightarrow> transaction" where
  "registerFiles_loop w [] s = s"
| "registerFiles_loop w (p # ps) s =
     (if p \<notin> m_files s then registerFiles_loop w ps s
      else registerFiles_loop w ps
             ((addError ''Conflict: This file is owned by more than one package''
                 (path_join w p) s)\<lparr>m_hasConflicts := True\<rparr>))"

definition registerFiles :: "world \<Rightarrow> path list \<Rightarrow> transaction \<Rightarrow> transaction" where
  "registerFiles w list s =
     (let s1 = registerFiles_loop w list s
      in s1\<lparr>m_files := m_files s1 \<union> set list\<rparr>)"

text \<open>Modelled from the spec: the constructor of \<open>InstallTask\<close> (\<open>task.cpp\<close>),
  which "enqueues one Download per Source of version onto the shared queue".\<close>

definition InstallTask_new :: "version \<Rightarrow> path list \<Rightarrow> transaction \<Rightarrow> task \<times> transaction" where
  "InstallTask_new ver currentFiles s =
     (InstallTask ver currentFiles,
      emit (map (\<lambda>src. Queue_push (ver_name ver) (src_url src)) (ver_sources ver))
        (s\<lparr>m_queue := m_queue s + length (ver_sources ver)\<rparr>))"

text \<open>\<open>Transaction::install\<close>: one \<open>InstallTask\<close> for each entry of \<open>m_packages\<close>.\<close>

fun install_loop :: "world \<Rightarrow> (version \<times> entry) list \<Rightarrow> transaction \<Rightarrow> transaction" where
  "install_loop w [] s = s"
| "install_loop w ((ver, regEntry) # es) s =
     (case InstallTask_new ver (reg_getFiles w regEntry) s of
        (t, s1) \<Rightarrow> install_loop w es (addTask t s1))"

definition install :: "world \<Rightarrow> transaction \<Rightarrow> transaction" where
  "install w s = install_loop w (m_packages s) (s\<lparr>m_step := Install\<rparr>)"

text \<open>
  \<open>Transaction::updateAll\<close>. The body of the inner loop, for one package: the last
  version is taken (a null pointer is dereferenced when the package has none), its files
  are registered, and the package is queued for installation unless it is up to date with
  all its files present.
\<close>

definition updateAll_package :: "world \<Rightarrow> package \<Rightarrow> transaction \<Rightarrow> transaction option" where
  "updateAll_package w pkg s =
     (let e = reg_query w pkg
      in case lastVersion pkg of
           None \<Rightarrow> None
         | Some ver \<Rightarrow>
             let files = ver_files ver;
                 s1 = registerFiles w files s
             in if ent_status e = UpToDate then
                  (if allFilesExists w s1 files then Some s1
                   else Some (s1\<lparr>m_packages := m_packages s1 @ [(ver, e\<lparr>ent_status := Uninstalled\<rparr>)]\<rparr>))
                else Some (s1\<lparr>m_packages := m_packages s1 @ [(ver, e)]\<rparr>))"

fun updateAll_packages :: "world \<Rightarrow> package list \<Rightarrow> transaction \<Rightarrow> transaction option" where
  "updateAll_packages w [] s = Some s"
| "updateAll_packages w (pkg # pkgs) s =
     (case updateAll_package w pkg s of
        None \<Rightarrow> None
      | Some s1 \<Rightarrow> updateAll_packages w pkgs s1)"

fun updateAll_indexes :: "world \<Rightarrow> remote_index list \<Rightarrow> transaction \<Rightarrow> transaction option" where
  "updateAll_indexes w [] s = Some s"
| "updateAll_indexes w (ri # ris) s =
     (case updateAll_packages w (ri_packages ri) s of
        None \<Rightarrow> None
      | Some s1 \<Rightarrow> updateAll_indexes w ris s1)"

definition updateAll :: "world \<Rightarrow> transaction \<Rightarrow> transaction option" where
  "updateAll w s =
     (case updateAll_indexes w (m_remoteIndexes s) s of
        None \<Rightarrow> None
      | Some s1 \<Rightarrow>
          if m_packages s1 = [] \<or> m_hasConflicts s1 then Some (finish s1)
          else Some (install w s1))"

text \<open>\<open>Transaction::uninstall\<close>: one \<open>RemoveTask\<close> for each entry of the remote.\<close>

fun uninstall_loop :: "world \<Rightarrow> entry list \<Rightarrow> transaction \<Rightarrow> transaction" where
  "uninstall_loop w [] s = s"
| "uninstall_loop w (e # es) s =
     uninstall_loop w es (addTask (RemoveTask (reg_getFiles w e)) s)"

definition uninstall :: "world \<Rightarrow> remote \<Rightarrow> transaction \<Rightarrow> transaction" where
  "uninstall w r s =
     (let entries = reg_queryAll w r
      in if entries = [] then cancel s else uninstall_loop w entries s)"

text \<open>
  The callback the constructor gives to \<open>m_queue.onDone\<close>: after the index downloads
  the packages are resolved, at any other step the transaction finishes.
\<close>

definition onDone :: "world \<Rightarrow> transaction \<Rightarrow> transaction option" where
  "onDone w s =
     (case m_step s of
        Synchronize \<Rightarrow> updateAll w s
      | _ \<Rightarrow> Some (finish s))"

text \<open>
  What can happen to a transaction: a call of its interface (\<open>synchronize\<close>,
  \<open>uninstall\<close>, \<open>cancel\<close>), the callback of a finished index download, a task
  saving a downloaded file or recording an error through \<open>saveFile\<close> and
  \<open>addError\<close>, the callback of the drained queue, or jobs of the queue coming to
  their end (\<open>Jobs n\<close>: \<open>n\<close> jobs are left).
\<close>

datatype action =
    Do_synchronize remote
  | Do_uninstall remote
  | Do_cancel
  | Index_downloaded finished_download
  | File_downloaded finished_download path
  | Error_added string string
  | Queue_done
  | Jobs nat

fun act :: "world \<Rightarrow> action \<Rightarrow> transaction \<Rightarrow> transaction option" where
  "act w (Do_synchronize r) s = Some (synchronize r s)"
| "act w (Do_uninstall r) s = Some (uninstall w r s)"
| "act w Do_cancel s = Some (cancel s)"
| "act w (Index_downloaded dl) s = saveRemoteIndex w dl s"
| "act w (File_downloaded dl p) s = Some (snd (saveFile w dl p s))"
| "act w (Error_added message title) s = Some (addError message title s)"
| "act w Queue_done s = onDone w s"
| "act w (Jobs n) s = Some (s\<lparr>m_queue := n\<rparr>)"

fun acts :: "world \<Rightarrow> action list \<Rightarrow> transaction \<Rightarrow> transaction option" where
  "acts w [] s = Some s"
| "acts w (a # as) s =
     (case act w a s of None \<Rightarrow> None | Some s1 \<Rightarrow> acts w as s1)"

text \<open>The commits among the calls made: of a task, or of the registry.\<close>

fun is_commit :: "event \<Rightarrow> bool" where
  "is_commit (Task_commit t) = True"
| "is_commit Registry_commit = True"
| "is_commit e = False"

definition commits :: "event list \<Rightarrow> event list" where
  "commits es = filter is_commit es"

subsection \<open>Objects that the operations build\<close>

text \<open>
  The categories and indexes that the operations of \<open>index.cpp\<close> can build: a category
  comes from its constructor and receives packages; an index comes from its constructor
  and receives categories and links. A category that an index already holds can still
  receive packages through a pointer its creator kept (rule \<open>later\<close>: the index's own
  list of packages was copied when the category was added).
\<close>

inductive built_category :: "category \<Rightarrow> bool" where
  new: "Category_new this name ri = Inr c \<Longrightarrow> built_category c"
| add: "built_category c \<Longrightarrow> addPackage c pkg = Inr c' \<Longrightarrow> built_category c'"

inductive built_index :: "remote_index \<Rightarrow> bool" where
  new: "RemoteIndex_new this name = Inr ri \<Longrightarrow> built_index ri"
| category: "built_index ri \<Longrightarrow> built_category c \<Longrightarrow> addCategory ri c = Inr ri' \<Longrightarrow> built_index ri'"
| link: "built_index ri \<Longrightarrow> built_index (addLink ri t l)"
| later: "built_index ri \<Longrightarrow> i < length (ri_categories ri) \<Longrightarrow>
          addPackage (ri_categories ri ! i) pkg = Inr c' \<Longrightarrow>
          built_index (ri\<lparr>ri_categories := (ri_categories ri)[i := c']\<rparr>)"

code_pred built_category .

code_pred built_index .

text \<open>
  What holds of the packages a category stores, and of the categories and packages an
  index stores.
\<close>

definition stored_ok :: "category \<Rightarrow> bool" where
  "stored_ok c = list_all (\<lambda>p. pkg_category p = Some (cat_this c) \<and>
                               pkg_type p \<noteq> UnknownType \<and> pkg_versions p \<noteq> []) (cat_packages c)"

definition index_ok :: "remote_index \<Rightarrow> bool" where
  "index_ok ri =
     (list_all (\<lambda>c. cat_index c = Some (ri_this ri) \<and> cat_packages c \<noteq> [] \<and> stored_ok c)
        (ri_categories ri) \<and>
      list_all (\<lambda>p. list_ex (\<lambda>c. p \<in> set (cat_packages c)) (ri_categories ri)) (ri_packages ri))"

subsection \<open>Notions the properties are stated with\<close>

text \<open>
  The reading of "the URL's scheme is on an allow-list": the scheme of a URL is what
  stands before its first colon, and the allow-list is a list of schemes. A link is
  retained when \<open>addLink\<close> makes it the last link of its type.
\<close>

definition url_scheme :: "string \<Rightarrow> string" where
  "url_scheme url = takeWhile (\<lambda>c. c \<noteq> CHR '':'') url"

definition scheme_allowed :: "string list \<Rightarrow> string \<Rightarrow> bool" where
  "scheme_allowed allow url = (url_scheme url \<in> set allow)"

definition safe_schemes :: "string list" where
  "safe_schemes = [''http'', ''https'']"

definition retained :: "remote_index \<Rightarrow> link_type \<Rightarrow> link \<Rightarrow> bool" where
  "retained ri type l = (links (addLink ri type l) type = links ri type @ [l])"

text \<open>
  What a version 1 document may lack: the name of a category, the name of a package, the
  URL of a source of some version of some package.
\<close>

definition category_without_name :: "v1_category list \<Rightarrow> bool" where
  "category_without_name cs = list_ex (\<lambda>c. vc_name c = []) cs"

definition package_without_name :: "v1_category list \<Rightarrow> bool" where
  "package_without_name cs = list_ex (\<lambda>c. list_ex (\<lambda>p. vp_name p = []) (vc_packages c)) cs"

definition source_without_url :: "v1_category list \<Rightarrow> bool" where
  "source_without_url cs =
     list_ex (\<lambda>c. list_ex (\<lambda>p. list_ex (\<lambda>v. list_ex (\<lambda>s. vs_url s = []) (vv_sources v))
       (vp_versions p)) (vc_packages c)) cs"

text \<open>
  The reader fails at a package without name or with a source without URL, and at a
  category without name or with a package it fails at.
\<close>

definition package_fails :: "v1_package \<Rightarrow> bool" where
  "package_fails p \<longleftrightarrow> vp_name p = [] \<or>
     list_ex (\<lambda>v. list_ex (\<lambda>s. vs_url s = []) (vv_sources v)) (vp_versions p)"

definition category_fails :: "v1_category \<Rightarrow> bool" where
  "category_fails c \<longleftrightarrow> vc_name c = [] \<or> list_ex package_fails (vc_packages c)"

text \<open>
  The cases of failure that the specification lists for \<open>load\<close>, read on the document:
  the root tag is not \<open>index\<close>, the version attribute is missing or not a positive
  number, the version is not a known one, or a source lacks its URL.
\<close>

definition listed_failure :: "(element \<Rightarrow> v1_category list) \<Rightarrow> xml_file \<Rightarrow> bool" where
  "listed_failure contents file =
     (case file of
        Document (Some root) \<Rightarrow>
          el_value root \<noteq> ''index'' \<or>
          (case map_of (el_attributes root) ''version'' of None \<Rightarrow> True | Some v \<Rightarrow> atoi v \<le> 0) \<or>
          Attribute_int root ''version'' \<noteq> 1 \<or>
          source_without_url (contents root)
      | _ \<Rightarrow> False)"

text \<open>
  \<open>still s s'\<close>: from \<open>s\<close> to \<open>s'\<close> nothing was committed, and \<open>s'\<close> is cancelled.
\<close>

definition still :: "transaction \<Rightarrow> transaction \<Rightarrow> bool" where
  "still s s' = (m_isCancelled s' \<and> commits (trace s') = commits (trace s))"

text \<open>
  The packages of one resolution pass, in the order \<open>updateAll\<close> visits them, the
  files a package claims in the pass (those of its last version), and the error that
  \<open>registerFiles\<close> records for a path.
\<close>

definition all_packages :: "transaction \<Rightarrow> package list" where
  "all_packages s = concat (map ri_packages (m_remoteIndexes s))"




subsection \<open>Concrete inputs\<close>

text \<open>Sources, versions and packages.\<close>

definition ex_source :: source where
  "ex_source = \<lparr>src_url = ''https://example.org/a.lua'', src_targetPath = [''Scripts'', ''a.lua'']\<rparr>"

definition ex_version :: "string \<Rightarrow> version" where
  "ex_version n = \<lparr>ver_name = n, ver_sources = [ex_source], ver_files = [[''Scripts'', ''a.lua'']]\<rparr>"

definition ex_empty_version :: version where
  "ex_empty_version = \<lparr>ver_name = ''1'', ver_sources = [], ver_files = []\<rparr>"

definition ex_package :: package where
  "ex_package = \<lparr>pkg_category = None, pkg_type = ScriptType, pkg_name = ''a'', pkg_versions = []\<rparr>"

text \<open>
  An index at address 1 and a category at address 2 that points to it; packages that
  point to the category; the index with one package, and the index with two packages
  whose last versions both claim the file \<open>Scripts/a.lua\<close>.
\<close>

definition ex_index :: remote_index where
  "ex_index = \<lparr>ri_this = 1, ri_name = ''ReaTeam'', ri_categories = [], ri_packages = [], ri_links = []\<rparr>"

definition ex_category :: category where
  "ex_category = \<lparr>cat_this = 2, cat_index = Some 1, cat_name = ''Scripts'', cat_packages = []\<rparr>"

definition ex_pkg :: "package_type \<Rightarrow> version list \<Rightarrow> package" where
  "ex_pkg ty vs = \<lparr>pkg_category = Some 2, pkg_type = ty, pkg_name = ''a'', pkg_versions = vs\<rparr>"

definition ex_built_category :: category where
  "ex_built_category = ex_category\<lparr>cat_packages := [ex_pkg ScriptType [ex_version ''1.0'']]\<rparr>"

definition ex_built_index :: remote_index where
  "ex_built_index = ex_index\<lparr>ri_categories := [ex_built_category],
                               ri_packages := [ex_pkg ScriptType [ex_version ''1.0'']]\<rparr>"

definition ex_pkg_b :: package where
  "ex_pkg_b = (ex_pkg ScriptType [ex_version ''2.0''])\<lparr>pkg_name := ''b''\<rparr>"

definition ex_conflict_category :: category where
  "ex_conflict_category =
     ex_category\<lparr>cat_packages := [ex_pkg ScriptType [ex_version ''1.0''], ex_pkg_b]\<rparr>"

definition ex_conflict_index :: remote_index where
  "ex_conflict_index =
     ex_index\<lparr>ri_categories := [ex_conflict_category],
               ri_packages := [ex_pkg ScriptType [ex_version ''1.0''], ex_pkg_b]\<rparr>"

text \<open>
  Documents, and what the reader of version 1 finds in them: the category \<open>Scripts\<close> with
  the package \<open>a\<close> of type \<open>script\<close>, its version \<open>1.0\<close> and one source with the given URL.
\<close>

definition ex_contents :: "string \<Rightarrow> element \<Rightarrow> v1_category list" where
  "ex_contents url root =
     [\<lparr>vc_name = ''Scripts'',
       vc_packages =
         [\<lparr>vp_type = ''script'', vp_name = ''a'',
           vp_versions =
             [\<lparr>vv_name = ''1.0'',
               vv_sources = [\<lparr>vs_url = url, vs_file = [''Scripts'', ''a.lua'']\<rparr>]\<rparr>]\<rparr>]\<rparr>]"

definition ex_loadV1 :: "element \<Rightarrow> string \<Rightarrow> error + remote_index" where
  "ex_loadV1 = loadV1 (ex_contents ''https://example.org/a.lua'') 1"

definition ex_root :: "string \<Rightarrow> string \<Rightarrow> element" where
  "ex_root tag v = Element tag [(''name'', ''ReaTeam''), (''version'', v)] []"

text \<open>A download job and the answer of a transfer.\<close>

definition ex_download :: "bool \<Rightarrow> download" where
  "ex_download a = \<lparr>dl_name = ''index'', dl_url = ''https://example.org/index.xml'',
     dl_proxy = [], dl_verifyPeer = True, dl_noCache = False, dl_aborted = a\<rparr>"

definition ex_transfer :: transfer where
  "ex_transfer = \<lparr>tr_res = 0, tr_strerror = ''No error'', tr_errbuf = ''No details'', tr_aborted = False\<rparr>"

text \<open>
  A world: nothing is installed as far as \<open>query\<close> tells, the registry lists two entries
  for the remote \<open>ReaTeam\<close> (with one file each), no file exists, every file can be
  written, paths are joined with a slash, and the loader returns the given index.
\<close>

definition join_slash :: "path \<Rightarrow> string" where
  "join_slash p = foldr (\<lambda>seg acc. if acc = [] then seg else seg @ ''/'' @ acc) p []"

definition ex_entry :: "nat \<Rightarrow> entry" where
  "ex_entry n = \<lparr>ent_id = n, ent_status = UpToDate\<rparr>"

definition ex_world_loading :: "remote_index \<Rightarrow> world" where
  "ex_world_loading ri =
     \<lparr>reg_query = (\<lambda>pkg. \<lparr>ent_id = 0, ent_status = Uninstalled\<rparr>),
      reg_queryAll = (\<lambda>r. if rem_name r = ''ReaTeam'' then [ex_entry 1, ex_entry 2] else []),
      reg_getFiles = (\<lambda>e. [[''Scripts'', show_nat (ent_id e) @ ''.lua'']]),
      file_exists = (\<lambda>f. False),
      path_join = join_slash,
      path_dirname = (\<lambda>p. join_slash (butlast p)),
      open_error = (\<lambda>f. None),
      RemoteIndex_load = (\<lambda>name file contents. Inr ri)\<rparr>"

definition ex_world :: world where
  "ex_world = ex_world_loading ex_built_index"


definition ex_remote :: remote where
  "ex_remote = \<lparr>rem_name = ''ReaTeam'', rem_url = ''https://example.org/index.xml''\<rparr>"

definition ex_finished_download :: finished_download where
  "ex_finished_download = \<lparr>fd_name = ''ReaTeam'', fd_url = ''https://example.org/index.xml'',
     fd_status = 200, fd_contents = ''index''\<rparr>"

text \<open>
  Transactions: one that is installing the package of \<open>ex_built_index\<close> (its download is
  queued), one that has loaded \<open>ex_conflict_index\<close> and waits for the queue, and what
  the latter becomes when the queue is drained.
\<close>

definition ex_installing :: transaction where
  "ex_installing =
     \<lparr>m_root = [''root''], m_dbPath = [''root'', ''ReaPack''], m_step = Install,
      m_isCancelled = False, m_hasConflicts = False, m_remoteIndexes = [ex_built_index],
      m_packages = [(ex_version ''1.0'', \<lparr>ent_id = 0, ent_status = Uninstalled\<rparr>)],
      m_tasks = [InstallTask (ex_version ''1.0'') [[''Scripts'', ''0.lua'']]],
      m_files = {[''Scripts'', ''a.lua'']}, m_errors = [], m_queue = 1,
      trace = [CreateDirectory ''root/ReaPack'',
               Queue_push ''ReaTeam'' ''https://example.org/index.xml'',
               CreateDirectory ''root/ReaPack'',
               WriteFile ''root/ReaPack/remote_ReaTeam.xml'' ''index'',
               Queue_push ''1.0'' ''https://example.org/a.lua'']\<rparr>"



text \<open>
  A second remote, \<open>Other\<close>, whose index (at address 3, with its category at address 4)
  offers the package \<open>b\<close>, which claims the file \<open>Scripts/a.lua\<close> as the package \<open>a\<close> of
  \<open>ReaTeam\<close> does; a world whose loader returns \<open>ex_built_index\<close> for \<open>ReaTeam\<close> and this
  index for any other name; the finished download of the index of \<open>Other\<close>, and the same
  download ended by the abort of the queue.
\<close>

definition ex_other_remote :: remote where
  "ex_other_remote = \<lparr>rem_name = ''Other'', rem_url = ''https://example.org/other.xml''\<rparr>"

definition ex_other_package :: package where
  "ex_other_package = ex_pkg_b\<lparr>pkg_category := Some 4\<rparr>"

definition ex_other_index :: remote_index where
  "ex_other_index =
     \<lparr>ri_this = 3, ri_name = ''Other'',
      ri_categories = [\<lparr>cat_this = 4, cat_index = Some 3, cat_name = ''Scripts'',
                        cat_packages = [ex_other_package]\<rparr>],
      ri_packages = [ex_other_package], ri_links = []\<rparr>"


definition ex_other_download :: finished_download where
  "ex_other_download = \<lparr>fd_name = ''Other'', fd_url = ''https://example.org/other.xml'',
     fd_status = 200, fd_contents = ''index''\<rparr>"

definition ex_aborted_download :: finished_download where
  "ex_aborted_download = \<lparr>fd_name = ''Other'', fd_url = ''https://example.org/other.xml'',
     fd_status = 0, fd_contents = ''aborted by user''\<rparr>"

section \<open>Properties\<close>

subsection \<open>Package: the version set and the last version\<close>

lemma VersionSet_insert_set: "set (VersionSet_insert v ws) \<subseteq> insert v (set ws)"
  by (induction ws) auto

lemma VersionSet_insert_sorted:
  "sorted_wrt (\<lambda>a b. version_key a < version_key b) ws \<Longrightarrow>
   sorted_wrt (\<lambda>a b. version_key a < version_key b) (VersionSet_insert v ws)"
proof (induction ws)
  case Nil
  then show ?case by simp
next
  case (Cons w ws)
  have "\<And>x. x \<in> set (VersionSet_insert v ws) \<Longrightarrow> x = v \<or> x \<in> set ws"
    using VersionSet_insert_set by fastforce
  with Cons show ?case by (auto simp: less_imp_le)
qed

lemma VersionSet_insert_covers:
  "\<exists>u \<in> set (VersionSet_insert v ws). version_key u = version_key v"
  by (induction ws) auto

lemma VersionSet_insert_keeps:
  "w \<in> set ws \<Longrightarrow> w \<in> set (VersionSet_insert v ws)"
  by (induction ws) auto

lemma addVersion_sorted:
  "sorted_wrt (\<lambda>a b. version_key a < version_key b) (pkg_versions p) \<Longrightarrow>
   sorted_wrt (\<lambda>a b. version_key a < version_key b) (pkg_versions (addVersion p v))"
  by (simp add: addVersion_def VersionSet_insert_sorted)

lemma addVersion_keeps:
  "w \<in> set (pkg_versions p) \<Longrightarrow> w \<in> set (pkg_versions (addVersion p v))"
  by (simp add: addVersion_def VersionSet_insert_keeps)

lemma addVersion_subset:
  "set (pkg_versions (addVersion p v)) \<subseteq> set (pkg_versions p) \<union> {u. u = v \<and> ver_sources v \<noteq> []}"
  using VersionSet_insert_set [of v "pkg_versions p"] by (auto simp: addVersion_def)

lemma foldl_addVersion_sorted:
  "sorted_wrt (\<lambda>a b. version_key a < version_key b) (pkg_versions p) \<Longrightarrow>
   sorted_wrt (\<lambda>a b. version_key a < version_key b) (pkg_versions (foldl addVersion p vs))"
  by (induction vs arbitrary: p) (auto simp: addVersion_sorted)

lemma foldl_addVersion_keeps:
  "w \<in> set (pkg_versions p) \<Longrightarrow> w \<in> set (pkg_versions (foldl addVersion p vs))"
  by (induction vs arbitrary: p) (auto simp: addVersion_keeps)

lemma foldl_addVersion_subset:
  "set (pkg_versions (foldl addVersion p vs))
     \<subseteq> set (pkg_versions p) \<union> {u \<in> set vs. ver_sources u \<noteq> []}"
proof (induction vs arbitrary: p)
  case Nil
  then show ?case by simp
next
  case (Cons v vs)
  show ?case using Cons [of "addVersion p v"] addVersion_subset [of p v] by auto
qed

lemma foldl_addVersion_covers:
  "v \<in> set vs \<Longrightarrow> ver_sources v \<noteq> [] \<Longrightarrow>
   \<exists>u \<in> set (pkg_versions (foldl addVersion p vs)). version_key u = version_key v"
proof (induction vs arbitrary: p)
  case Nil
  then show ?case by simp
next
  case (Cons a vs)
  show ?case
  proof (cases "v = a")
    case True
    obtain u where u: "u \<in> set (VersionSet_insert a (pkg_versions p))" "version_key u = version_key a"
      using VersionSet_insert_covers by blast
    from u(1) Cons.prems True have "u \<in> set (pkg_versions (addVersion p a))"
      by (simp add: addVersion_def)
    then have "u \<in> set (pkg_versions (foldl addVersion (addVersion p a) vs))"
      by (rule foldl_addVersion_keeps)
    with u(2) True show ?thesis by auto
  next
    case False
    with Cons.prems have "v \<in> set vs" by simp
    from Cons.IH [OF this Cons.prems(2)] show ?thesis by simp
  qed
qed

lemma sorted_last_greatest:
  "sorted_wrt (\<lambda>a b. version_key a < version_key b) ws \<Longrightarrow> w \<in> set ws \<Longrightarrow>
   version_key w \<le> version_key (last ws)"
proof (induction ws)
  case Nil
  then show ?case by simp
next
  case (Cons a ws)
  then show ?case by (cases "ws = []") (auto simp: less_imp_le intro: order_trans)
qed

text \<open>
  Claim C3. A package is built by its constructor and any sequence of \<open>addVersion\<close>
  calls. Its version container is then sorted ascending by the numeric-segment comparison
  of the version names, and when it is not empty \<open>lastVersion\<close> returns a stored version
  that is greatest under that comparison: no stored version, and no version that was added
  with a source, has a greater name. (Among the versions 1.9, 1.10 and 0.5 it returns 1.10:
  the instance after the theorem.)
\<close>

theorem C3_lastVersion_greatest:
  assumes new: "Package_new ty name = Inr p0"
    and p: "p = foldl addVersion p0 vs"
  shows "sorted_wrt (<) (map version_key (pkg_versions p)) \<and>
         (pkg_versions p \<noteq> [] \<longrightarrow>
            (\<exists>v. lastVersion p = Some v \<and> v \<in> set (pkg_versions p) \<and>
                 (\<forall>w \<in> set (pkg_versions p). version_key w \<le> version_key v) \<and>
                 (\<forall>w \<in> set vs. ver_sources w \<noteq> [] \<longrightarrow> version_key w \<le> version_key v)))"
proof -
  let ?lt = "\<lambda>a b. version_key a < version_key b"
  from new have p0: "pkg_versions p0 = []"
    by (auto simp: Package_new_def split: if_splits)
  then have srt: "sorted_wrt ?lt (pkg_versions p)"
    unfolding p by (intro foldl_addVersion_sorted) simp
  then have one: "sorted_wrt (<) (map version_key (pkg_versions p))"
    by (simp add: sorted_wrt_map)
  have two: "\<exists>v. lastVersion p = Some v \<and> v \<in> set (pkg_versions p) \<and>
                 (\<forall>w \<in> set (pkg_versions p). version_key w \<le> version_key v) \<and>
                 (\<forall>w \<in> set vs. ver_sources w \<noteq> [] \<longrightarrow> version_key w \<le> version_key v)"
    if ne: "pkg_versions p \<noteq> []"
  proof -
    let ?v = "last (pkg_versions p)"
    have a: "lastVersion p = Some ?v" using ne by (simp add: lastVersion_def)
    have b: "?v \<in> set (pkg_versions p)" using ne by simp
    have c: "\<forall>w \<in> set (pkg_versions p). version_key w \<le> version_key ?v"
      using srt sorted_last_greatest by blast
    have d: "\<forall>w \<in> set vs. ver_sources w \<noteq> [] \<longrightarrow> version_key w \<le> version_key ?v"
    proof (intro ballI impI)
      fix w assume "w \<in> set vs" "ver_sources w \<noteq> []"
      then obtain u where "u \<in> set (pkg_versions p)" "version_key u = version_key w"
        unfolding p using foldl_addVersion_covers by blast
      with c show "version_key w \<le> version_key ?v" by metis
    qed
    from a b c d show ?thesis by blast
  qed
  from one two show ?thesis by blast
qed

lemma ex_versions:
  "pkg_versions (foldl addVersion ex_package [ex_version ''1.9'', ex_version ''1.10'', ex_version ''0.5''])
     = [ex_version ''0.5'', ex_version ''1.9'', ex_version ''1.10'']"
  by (simp add: addVersion_def ex_version_def ex_package_def version_key_def is_digit_def digit_val_def)

theorem C3_lastVersion_greatest_witness:
  "Package_new ScriptType ''a'' = Inr ex_package \<and>
   lastVersion (foldl addVersion ex_package [ex_version ''1.9'', ex_version ''1.10'', ex_version ''0.5''])
     = Some (ex_version ''1.10'') \<and>
   map ver_name (pkg_versions (foldl addVersion ex_package
       [ex_version ''1.9'', ex_version ''1.10'', ex_version ''0.5''])) = [''0.5'', ''1.9'', ''1.10''] \<and>
   sorted_wrt (<) (map version_key (pkg_versions (foldl addVersion ex_package
       [ex_version ''1.9'', ex_version ''1.10'', ex_version ''0.5''])))"
proof -
  have new: "Package_new ScriptType ''a'' = Inr ex_package"
    by (simp add: Package_new_def ex_package_def)
  note inst = C3_lastVersion_greatest [OF new refl,
      of "[ex_version ''1.9'', ex_version ''1.10'', ex_version ''0.5'']"]
  have lst: "lastVersion (foldl addVersion ex_package [ex_version ''1.9'', ex_version ''1.10'', ex_version ''0.5''])
     = Some (ex_version ''1.10'')"
    unfolding lastVersion_def ex_versions by simp
  have names: "map ver_name (pkg_versions (foldl addVersion ex_package
       [ex_version ''1.9'', ex_version ''1.10'', ex_version ''0.5''])) = [''0.5'', ''1.9'', ''1.10'']"
    unfolding ex_versions by (simp add: ex_version_def)
  from new lst names inst show ?thesis by blast
qed

text \<open>
  The test \<open>package versions are sorted\<close> of \<open>test/package.cpp\<close>: the version 1 is
  added before the version 0.1, and the package lists 0.1 first and has 1 as last version.
\<close>

lemma test_package_versions_are_sorted:
  "pkg_versions (foldl addVersion ex_package [ex_version ''1'', ex_version ''0.1''])
     = [ex_version ''0.1'', ex_version ''1''] \<and>
   lastVersion (foldl addVersion ex_package [ex_version ''1'', ex_version ''0.1''])
     = Some (ex_version ''1'')"
  by (simp add: addVersion_def lastVersion_def ex_version_def ex_package_def version_key_def
      is_digit_def digit_val_def)

text \<open>
  Claim C7. Adding a version that has no source leaves the package as it was; a package
  to which only versions without a source were added has an empty version set, and
  \<open>lastVersion\<close> yields no version for it.
\<close>

theorem C7_zero_source_version_dropped:
  "(ver_sources ver = [] \<longrightarrow> addVersion pkg ver = pkg) \<and>
   (Package_new ty name = Inr p0 \<and> (\<forall>v \<in> set vs. ver_sources v = []) \<longrightarrow>
      pkg_versions (foldl addVersion p0 vs) = [] \<and> lastVersion (foldl addVersion p0 vs) = None)"
proof -
  have fold: "foldl addVersion q vs = q" if "\<forall>v \<in> set vs. ver_sources v = []" for q
    using that by (induction vs arbitrary: q) (auto simp: addVersion_def)
  have "pkg_versions p0 = []" if "Package_new ty name = Inr p0"
    using that by (auto simp: Package_new_def split: if_splits)
  with fold show ?thesis by (auto simp: addVersion_def lastVersion_def)
qed

theorem C7_zero_source_version_dropped_witness:
  "ver_sources ex_empty_version = [] \<and>
   Package_new ScriptType ''a'' = Inr ex_package \<and>
   addVersion ex_package ex_empty_version = ex_package \<and>
   pkg_versions (foldl addVersion ex_package [ex_empty_version]) = [] \<and>
   lastVersion (foldl addVersion ex_package [ex_empty_version]) = None"
proof -
  have a: "ver_sources ex_empty_version = []" by (simp add: ex_empty_version_def)
  have b: "Package_new ScriptType ''a'' = Inr ex_package"
    by (simp add: Package_new_def ex_package_def)
  have c: "\<forall>v \<in> set [ex_empty_version]. ver_sources v = []" using a by simp
  from C7_zero_source_version_dropped [of ex_empty_version ex_package ScriptType "''a''" ex_package "[ex_empty_version]"]
    a b c show ?thesis by blast
qed

subsection \<open>Index: what is stored and what is refused\<close>

lemma addPackage_Inr:
  "addPackage c pkg = Inr c' \<Longrightarrow>
   pkg_category pkg = Some (cat_this c) \<and> cat_this c' = cat_this c \<and> cat_index c' = cat_index c \<and>
   (c' = c \<or> (pkg_type pkg \<noteq> UnknownType \<and> pkg_versions pkg \<noteq> [] \<and>
               cat_packages c' = cat_packages c @ [pkg]))"
  by (auto simp: addPackage_def split: if_splits)

lemma addPackage_stored_ok:
  "stored_ok c \<Longrightarrow> addPackage c pkg = Inr c' \<Longrightarrow> stored_ok c'"
  using addPackage_Inr [of c pkg c'] by (auto simp: stored_ok_def)

lemma built_category_stored_ok: "built_category c \<Longrightarrow> stored_ok c"
proof (induction rule: built_category.induct)
  case (new this name ri c)
  then show ?case by (auto simp: Category_new_def stored_ok_def split: if_splits)
next
  case (add c pkg c')
  then show ?case by (simp add: addPackage_stored_ok)
qed

lemma built_index_ok: "built_index ri \<Longrightarrow> index_ok ri"
proof (induction rule: built_index.induct)
  case (new this name ri)
  then show ?case by (auto simp: RemoteIndex_new_def index_ok_def split: if_splits)
next
  case (category ri c ri')
  from category.hyps(2) have sc: "stored_ok c" by (rule built_category_stored_ok)
  from category.hyps(3) have
    "cat_index c = Some (ri_this ri)" and
    "ri' = ri \<or> (cat_packages c \<noteq> [] \<and>
        ri' = ri\<lparr>ri_categories := ri_categories ri @ [c], ri_packages := ri_packages ri @ cat_packages c\<rparr>)"
    by (auto simp: addCategory_def split: if_splits)
  with category.IH sc show ?case
    by (auto simp: index_ok_def list_all_iff list_ex_iff)
next
  case (link ri t l)
  then show ?case by (simp add: index_ok_def addLink_def)
next
  case (later ri i pkg c')
  let ?c = "ri_categories ri ! i"
  from later.hyps(2) have mem: "?c \<in> set (ri_categories ri)" by simp
  from later.IH mem have c: "cat_index ?c = Some (ri_this ri)" "cat_packages ?c \<noteq> []" "stored_ok ?c"
    by (auto simp: index_ok_def list_all_iff)
  from addPackage_Inr [OF later.hyps(3)] have
    c': "cat_this c' = cat_this ?c" "cat_index c' = cat_index ?c"
        "set (cat_packages ?c) \<subseteq> set (cat_packages c')"
    by auto
  from c(3) later.hyps(3) have sc': "stored_ok c'" by (rule addPackage_stored_ok)
  have cats: "list_all (\<lambda>c. cat_index c = Some (ri_this ri) \<and> cat_packages c \<noteq> [] \<and> stored_ok c)
                ((ri_categories ri)[i := c'])"
  proof -
    have "\<And>x. x \<in> set ((ri_categories ri)[i := c']) \<Longrightarrow> x = c' \<or> x \<in> set (ri_categories ri)"
      using set_update_subset_insert by fastforce
    moreover have "cat_packages c' \<noteq> []" using c(2) c'(3) by auto
    ultimately show ?thesis
      using later.IH c c' sc' by (auto simp: index_ok_def list_all_iff)
  qed
  have pkgs: "list_all (\<lambda>p. list_ex (\<lambda>c. p \<in> set (cat_packages c)) ((ri_categories ri)[i := c']))
                (ri_packages ri)"
    unfolding list_all_iff list_ex_iff
  proof
    fix p assume "p \<in> set (ri_packages ri)"
    with later.IH obtain d where d: "d \<in> set (ri_categories ri)" "p \<in> set (cat_packages d)"
      by (auto simp: index_ok_def list_all_iff list_ex_iff)
    then obtain j where j: "j < length (ri_categories ri)" "ri_categories ri ! j = d"
      by (auto simp: in_set_conv_nth)
    show "\<exists>c \<in> set ((ri_categories ri)[i := c']). p \<in> set (cat_packages c)"
    proof (cases "j = i")
      case True
      with j d c'(3) have "p \<in> set (cat_packages c')" by auto
      moreover have "c' \<in> set ((ri_categories ri)[i := c'])"
        using later.hyps(2) by (simp add: set_update_memI)
      ultimately show ?thesis by blast
    next
      case False
      with j have "((ri_categories ri)[i := c']) ! j = d" by simp
      with j(1) have "d \<in> set ((ri_categories ri)[i := c'])"
        by (metis length_list_update nth_mem)
      with d(2) show ?thesis by blast
    qed
  qed
  from cats pkgs show ?case by (simp add: index_ok_def)
qed

text \<open>
  Claim C5. A package that belongs to the category (its category pointer is the
  category) and has the unknown type, or has no version, is discarded by \<open>addPackage\<close>:
  no error is raised and the category is unchanged. A category that belongs to the index
  and has no package is discarded by \<open>addCategory\<close>: no error and the index is unchanged.
\<close>

theorem C5_silent_discard:
  "(pkg_category pkg = Some (cat_this cat) \<and> (pkg_type pkg = UnknownType \<or> pkg_versions pkg = [])
      \<longrightarrow> addPackage cat pkg = Inr cat) \<and>
   (cat_index c = Some (ri_this ri) \<and> cat_packages c = [] \<longrightarrow> addCategory ri c = Inr ri)"
  by (simp add: addPackage_def addCategory_def)

theorem C5_silent_discard_witness:
  "addPackage ex_category (ex_pkg UnknownType [ex_version ''1.0'']) = Inr ex_category \<and>
   addPackage ex_category (ex_pkg ScriptType []) = Inr ex_category \<and>
   addCategory ex_index ex_category = Inr ex_index"
proof -
  have a: "pkg_category (ex_pkg ty vs) = Some (cat_this ex_category)" for ty vs
    by (simp add: ex_pkg_def ex_category_def)
  have b: "pkg_type (ex_pkg UnknownType [ex_version ''1.0'']) = UnknownType"
    and c: "pkg_versions (ex_pkg ScriptType []) = []"
    by (simp_all add: ex_pkg_def)
  have d: "cat_index ex_category = Some (ri_this ex_index) \<and> cat_packages ex_category = []"
    by (simp add: ex_category_def ex_index_def)
  from C5_silent_discard [of "ex_pkg UnknownType [ex_version ''1.0'']" ex_category ex_category ex_index]
    C5_silent_discard [of "ex_pkg ScriptType []" ex_category ex_category ex_index]
    a b c d show ?thesis by blast
qed

text \<open>
  Claim C10. \<open>addCategory\<close> raises an error when the category's index pointer is not
  the index, and \<open>addPackage\<close> raises an error when the package's category pointer is
  not the category. Hence in every index built by these operations each stored category
  points to the index, each package stored in a category points to that category, and
  each package in the index's own list points to a stored category.
\<close>

theorem C10_parent_consistency:
  "(cat_index c \<noteq> Some (ri_this ri) \<longrightarrow>
      addCategory ri c = Inl (reapack_error ''category belongs to another index'')) \<and>
   (pkg_category pkg \<noteq> Some (cat_this cat) \<longrightarrow>
      addPackage cat pkg = Inl (reapack_error ''package belongs to another category'')) \<and>
   (built_index ix \<longrightarrow>
      (\<forall>d \<in> set (ri_categories ix). cat_index d = Some (ri_this ix) \<and>
          (\<forall>p \<in> set (cat_packages d). pkg_category p = Some (cat_this d))) \<and>
      (\<forall>p \<in> set (ri_packages ix). \<exists>d \<in> set (ri_categories ix). pkg_category p = Some (cat_this d)))"
proof -
  have "index_ok ix" if "built_index ix" using that by (rule built_index_ok)
  then have "built_index ix \<longrightarrow>
      (\<forall>d \<in> set (ri_categories ix). cat_index d = Some (ri_this ix) \<and>
          (\<forall>p \<in> set (cat_packages d). pkg_category p = Some (cat_this d))) \<and>
      (\<forall>p \<in> set (ri_packages ix). \<exists>d \<in> set (ri_categories ix). pkg_category p = Some (cat_this d))"
    unfolding index_ok_def stored_ok_def list_all_iff list_ex_iff by blast
  then show ?thesis by (simp add: addCategory_def addPackage_def)
qed

lemma built_index_packages_have_versions:
  "built_index ix \<Longrightarrow> p \<in> set (ri_packages ix) \<Longrightarrow> pkg_versions p \<noteq> [] \<and> pkg_type p \<noteq> UnknownType"
  using built_index_ok [of ix]
  unfolding index_ok_def stored_ok_def list_all_iff list_ex_iff by blast

lemma ex_built_index_built: "built_index ex_built_index"
proof -
  have "Category_new 2 ''Scripts'' (Some 1) = Inr ex_category"
    by (simp add: Category_new_def ex_category_def)
  then have "built_category ex_category" by (rule built_category.new)
  moreover have "addPackage ex_category (ex_pkg ScriptType [ex_version ''1.0'']) = Inr ex_built_category"
    by (simp add: addPackage_def ex_category_def ex_pkg_def ex_built_category_def)
  ultimately have cat: "built_category ex_built_category" by (rule built_category.add)
  have "RemoteIndex_new 1 ''ReaTeam'' = Inr ex_index"
    by (simp add: RemoteIndex_new_def ex_index_def)
  then have "built_index ex_index" by (rule built_index.new)
  moreover have "addCategory ex_index ex_built_category = Inr ex_built_index"
    by (simp add: addCategory_def ex_index_def ex_built_category_def ex_category_def ex_built_index_def)
  ultimately show ?thesis using cat by (blast intro: built_index.category)
qed

theorem C10_parent_consistency_witness:
  "addCategory ex_index (ex_category\<lparr>cat_index := Some 7\<rparr>)
     = Inl (reapack_error ''category belongs to another index'') \<and>
   addPackage ex_category ((ex_pkg ScriptType [ex_version ''1.0''])\<lparr>pkg_category := None\<rparr>)
     = Inl (reapack_error ''package belongs to another category'') \<and>
   built_index ex_built_index \<and>
   map cat_index (ri_categories ex_built_index) = [Some (ri_this ex_built_index)] \<and>
   map pkg_category (cat_packages ex_built_category) = [Some (cat_this ex_built_category)] \<and>
   map pkg_category (ri_packages ex_built_index) = [Some (cat_this ex_built_category)]"
proof -
  have a: "cat_index (ex_category\<lparr>cat_index := Some 7\<rparr>) \<noteq> Some (ri_this ex_index)"
    by (simp add: ex_index_def)
  have b: "pkg_category ((ex_pkg ScriptType [ex_version ''1.0''])\<lparr>pkg_category := None\<rparr>)
             \<noteq> Some (cat_this ex_category)"
    by simp
  note inst = C10_parent_consistency [of "ex_category\<lparr>cat_index := Some 7\<rparr>" ex_index
      "(ex_pkg ScriptType [ex_version ''1.0''])\<lparr>pkg_category := None\<rparr>" ex_category ex_built_index]
  have cats: "ri_categories ex_built_index = [ex_built_category]"
    and pkgs: "ri_packages ex_built_index = [ex_pkg ScriptType [ex_version ''1.0'']]"
    and cpk: "cat_packages ex_built_category = [ex_pkg ScriptType [ex_version ''1.0'']]"
    by (simp_all add: ex_built_index_def ex_built_category_def)
  from inst a b ex_built_index_built show ?thesis
    unfolding cats pkgs cpk by simp
qed

subsection \<open>Download: a job that is aborted before it runs\<close>

text \<open>
  Claim C9. When the job is marked aborted at the moment \<open>run\<close> is called, the only thing
  \<open>run\<close> does is to finish the job in the state \<open>Aborted\<close>: the worker is not notified
  of a running job, no option of the transfer is set and no transfer is performed,
  whatever the network would have answered.
\<close>

theorem C9_aborted_before_run:
  "aborted dl \<Longrightarrow>
     run dl tr = [Finish Aborted ''cancelled''] \<and> Curl_perform \<notin> set (run dl tr) \<and>
     Notify Running \<notin> set (run dl tr)"
  by (simp add: run_def)

theorem C9_aborted_before_run_witness:
  "aborted (ex_download True) \<and> run (ex_download True) ex_transfer = [Finish Aborted ''cancelled'']"
proof -
  have a: "aborted (ex_download True)" by (simp add: aborted_def ex_download_def)
  from C9_aborted_before_run [OF a, of ex_transfer] a show ?thesis by simp
qed

lemma run_not_aborted_performs:
  "\<not> aborted dl \<Longrightarrow> Curl_perform \<in> set (run dl tr)"
  by (simp add: run_def)

subsection \<open>Index: which links are kept\<close>

lemma link_rank_inj: "link_rank a = link_rank b \<longleftrightarrow> a = b"
  by (cases a; cases b) simp_all

lemma multimap_insert_sorted:
  "sorted (map (\<lambda>e. link_rank (fst e)) xs) \<Longrightarrow>
   sorted (map (\<lambda>e. link_rank (fst e)) (multimap_insert e xs))"
proof (induction xs)
  case Nil
  then show ?case by simp
next
  case (Cons x xs)
  have "set (multimap_insert e xs) = insert e (set xs)" for xs
    by (induction xs) auto
  with Cons show ?case by auto
qed

lemma multimap_insert_filter:
  "sorted (map (\<lambda>e. link_rank (fst e)) xs) \<Longrightarrow>
   filter (\<lambda>e. fst e = t') (multimap_insert (t, l) xs) =
     (if t' = t then filter (\<lambda>e. fst e = t') xs @ [(t, l)] else filter (\<lambda>e. fst e = t') xs)"
proof (induction xs)
  case Nil
  then show ?case by simp
next
  case (Cons x xs)
  show ?case
  proof (cases "link_rank t < link_rank (fst x)")
    case True
    have "\<forall>y \<in> set (x # xs). link_rank t < link_rank (fst y)"
      using Cons.prems True by auto
    then have "\<forall>y \<in> set (x # xs). fst y \<noteq> t" by auto
    then have "filter (\<lambda>e. fst e = t) (x # xs) = []"
      by (simp add: filter_empty_conv)
    with True show ?thesis by auto
  next
    case False
    with Cons show ?thesis by auto
  qed
qed

lemma scheme_http_starts:
  assumes "url_scheme url = ''http'' \<or> url_scheme url = ''https''"
  shows "starts_with url ''http''"
proof -
  have "url = url_scheme url @ dropWhile (\<lambda>c. c \<noteq> CHR '':'') url"
    by (simp add: url_scheme_def)
  with assms obtain rest where "url = ''http'' @ rest"
    by (metis append_Cons append_Nil)
  then show ?thesis by (simp add: starts_with_def)
qed

lemma no_finite_allow_list:
  "\<exists>url. starts_with url ''http'' \<noteq> scheme_allowed allow url"
proof (cases "''http'' \<in> set allow")
  case False
  then have "starts_with ''http'' ''http'' \<noteq> scheme_allowed allow ''http''"
    by (simp add: starts_with_def scheme_allowed_def url_scheme_def)
  then show ?thesis ..
next
  case True
  let ?u = "''http'' @ replicate (Suc (sum_list (map length allow))) CHR ''x''"
  have sch: "url_scheme ?u = ?u"
    by (simp add: url_scheme_def takeWhile_eq_all_conv)
  have "\<forall>a \<in> set allow. length a \<le> sum_list (map length allow)"
    by (simp add: member_le_sum_list)
  then have "\<forall>a \<in> set allow. length a < length ?u" by auto
  then have "?u \<notin> set allow" by blast
  with sch have "\<not> scheme_allowed allow ?u" by (simp add: scheme_allowed_def)
  moreover have "starts_with ?u ''http''" by (simp add: starts_with_def)
  ultimately show ?thesis by blast
qed

lemma built_index_links_sorted:
  "built_index ri \<Longrightarrow> sorted (map (\<lambda>e. link_rank (fst e)) (ri_links ri))"
proof (induction rule: built_index.induct)
  case (new this name ri)
  then show ?case by (auto simp: RemoteIndex_new_def split: if_splits)
next
  case (category ri c ri')
  then show ?case by (auto simp: addCategory_def split: if_splits)
next
  case (link ri t l)
  then show ?case by (simp add: addLink_def multimap_insert_sorted)
next
  case (later ri i pkg c')
  then show ?case by simp
qed

text \<open>
  Claim C8, as stated, fails: the link with the URL \<open>httpx://example.org\<close> is retained,
  and its scheme \<open>httpx\<close> is neither \<open>http\<close> nor \<open>https\<close>. (By
  \<open>no_finite_allow_list\<close> no list of schemes describes what \<open>addLink\<close> keeps.)
\<close>

theorem C8_counterexample:
  "links (addLink ex_index WebsiteLink \<lparr>link_name = ''site'', link_url = ''httpx://example.org''\<rparr>)
       WebsiteLink
     = [\<lparr>link_name = ''site'', link_url = ''httpx://example.org''\<rparr>] \<and>
   \<not> scheme_allowed safe_schemes ''httpx://example.org''"
  by (simp add: links_def addLink_def starts_with_def ex_index_def scheme_allowed_def
      safe_schemes_def url_scheme_def)

text \<open>
  Claim C8, amended. A link offered to \<open>addLink\<close> is retained, as the last link of its
  type, if and only if its URL begins with the four characters \<open>http\<close>; a link whose URL
  does not is discarded and the index is unchanged. The links of the other type are never
  changed. Every URL whose scheme is \<open>http\<close> or \<open>https\<close> begins with these characters.
\<close>

theorem C8_link_kept_iff_http_prefix:
  assumes "sorted (map (\<lambda>e. link_rank (fst e)) (ri_links ri))"
  shows "(retained ri t l \<longleftrightarrow> starts_with (link_url l) ''http'') \<and>
         (\<not> starts_with (link_url l) ''http'' \<longrightarrow> addLink ri t l = ri) \<and>
         (t' \<noteq> t \<longrightarrow> links (addLink ri t l) t' = links ri t') \<and>
         sorted (map (\<lambda>e. link_rank (fst e)) (ri_links (addLink ri t l))) \<and>
         (url_scheme (link_url l) = ''http'' \<or> url_scheme (link_url l) = ''https''
            \<longrightarrow> retained ri t l)"
proof -
  have keep: "links (addLink ri t l) t' =
      (if starts_with (link_url l) ''http'' \<and> t' = t then links ri t' @ [l] else links ri t')" for t'
    by (simp add: links_def addLink_def multimap_insert_filter [OF assms])
  have a: "retained ri t l \<longleftrightarrow> starts_with (link_url l) ''http''"
    unfolding retained_def keep by simp
  have b: "\<not> starts_with (link_url l) ''http'' \<longrightarrow> addLink ri t l = ri"
    by (simp add: addLink_def)
  have c: "t' \<noteq> t \<longrightarrow> links (addLink ri t l) t' = links ri t'"
    unfolding keep by simp
  have d: "sorted (map (\<lambda>e. link_rank (fst e)) (ri_links (addLink ri t l)))"
    using assms by (simp add: addLink_def multimap_insert_sorted)
  have e: "url_scheme (link_url l) = ''http'' \<or> url_scheme (link_url l) = ''https''
            \<longrightarrow> retained ri t l"
    using a scheme_http_starts by blast
  from a b c d e show ?thesis by blast
qed

theorem C8_link_kept_iff_http_prefix_witness:
  "sorted (map (\<lambda>e. link_rank (fst e)) (ri_links ex_index)) \<and>
   retained ex_index DonationLink \<lparr>link_name = ''donate'', link_url = ''https://example.org/d''\<rparr> \<and>
   \<not> retained ex_index DonationLink \<lparr>link_name = ''mail'', link_url = ''mailto:a@example.org''\<rparr> \<and>
   addLink ex_index DonationLink \<lparr>link_name = ''mail'', link_url = ''mailto:a@example.org''\<rparr> = ex_index"
proof -
  have s: "sorted (map (\<lambda>e. link_rank (fst e)) (ri_links ex_index))"
    by (simp add: ex_index_def)
  have p: "starts_with (link_url \<lparr>link_name = ''donate'', link_url = ''https://example.org/d''\<rparr>) ''http''"
    and q: "\<not> starts_with (link_url \<lparr>link_name = ''mail'', link_url = ''mailto:a@example.org''\<rparr>) ''http''"
    by (simp_all add: starts_with_def)
  from C8_link_kept_iff_http_prefix [OF s, of DonationLink
      "\<lparr>link_name = ''donate'', link_url = ''https://example.org/d''\<rparr>" WebsiteLink]
    C8_link_kept_iff_http_prefix [OF s, of DonationLink
      "\<lparr>link_name = ''mail'', link_url = ''mailto:a@example.org''\<rparr>" WebsiteLink]
    s p q show ?thesis by blast
qed

subsection \<open>Index: when loading fails\<close>

lemma loadV1_sources_isl:
  "isl (loadV1_sources ss) \<longleftrightarrow> list_ex (\<lambda>s. vs_url s = []) ss"
  by (induction ss) (auto simp: Source_new_def split: sum.splits)

lemma addVersion_category: "pkg_category (addVersion pkg v) = pkg_category pkg"
  by (simp add: addVersion_def)

lemma loadV1_versions_category:
  "loadV1_versions pkg vs = Inr pkg' \<Longrightarrow> pkg_category pkg' = pkg_category pkg"
  by (induction vs arbitrary: pkg) (auto simp: addVersion_category split: sum.splits)

lemma loadV1_versions_isl:
  "isl (loadV1_versions pkg vs)
     \<longleftrightarrow> list_ex (\<lambda>v. list_ex (\<lambda>s. vs_url s = []) (vv_sources v)) vs"
proof (induction vs arbitrary: pkg)
  case Nil
  show ?case by simp
next
  case (Cons v vs)
  show ?case
  proof (cases "loadV1_sources (vv_sources v)")
    case (Inl e)
    with loadV1_sources_isl [of "vv_sources v"] show ?thesis by simp
  next
    case (Inr srcs)
    with loadV1_sources_isl [of "vv_sources v"] Cons.IH show ?thesis by simp
  qed
qed

lemma addPackage_fields:
  "addPackage cat pkg = Inr cat' \<Longrightarrow> cat_this cat' = cat_this cat \<and> cat_index cat' = cat_index cat"
  by (auto simp: addPackage_def split: if_splits)

lemma addPackage_own: "pkg_category pkg = Some (cat_this cat) \<Longrightarrow> \<not> isl (addPackage cat pkg)"
  by (simp add: addPackage_def)

lemma loadV1_packages_fields:
  "loadV1_packages cat ps = Inr cat' \<Longrightarrow>
     cat_this cat' = cat_this cat \<and> cat_index cat' = cat_index cat"
proof (induction ps arbitrary: cat)
  case Nil
  then show ?case by simp
next
  case (Cons p ps)
  from Cons.prems obtain pkg pkg' cat1 where
    "addPackage cat pkg' = Inr cat1" "loadV1_packages cat1 ps = Inr cat'"
    by (auto split: sum.splits)
  with Cons.IH [of cat1] addPackage_fields [of cat pkg' cat1] show ?case by simp
qed

lemma loadV1_packages_isl:
  "isl (loadV1_packages cat ps) \<longleftrightarrow> list_ex package_fails ps"
proof (induction ps arbitrary: cat)
  case Nil
  show ?case by simp
next
  case (Cons p ps)
  show ?case
  proof (cases "vp_name p = []")
    case True
    then show ?thesis by (simp add: Package_new_def package_fails_def)
  next
    case False
    define pkg where "pkg = setCategory \<lparr>pkg_category = None, pkg_type = convertType (vp_type p),
        pkg_name = vp_name p, pkg_versions = []\<rparr> (Some (cat_this cat))"
    have new: "Package_new (convertType (vp_type p)) (vp_name p)
        = Inr \<lparr>pkg_category = None, pkg_type = convertType (vp_type p),
        pkg_name = vp_name p, pkg_versions = []\<rparr>"
      using False by (simp add: Package_new_def)
    show ?thesis
    proof (cases "loadV1_versions pkg (vp_versions p)")
      case (Inl e)
      with loadV1_versions_isl [of pkg "vp_versions p"] new show ?thesis
        by (simp add: package_fails_def pkg_def)
    next
      case (Inr pkg')
      from loadV1_versions_category [OF Inr] have own: "pkg_category pkg' = Some (cat_this cat)"
        by (simp add: pkg_def setCategory_def)
      from addPackage_own [OF own] obtain cat1 where add: "addPackage cat pkg' = Inr cat1"
        by (cases "addPackage cat pkg'") auto
      from loadV1_versions_isl [of pkg "vp_versions p"] Inr False
      have ok: "\<not> package_fails p" by (simp add: package_fails_def)
      from new Inr add Cons.IH [of cat1] ok show ?thesis by (simp add: pkg_def)
    qed
  qed
qed

lemma addCategory_own: "cat_index cat = Some (ri_this ri) \<Longrightarrow> \<not> isl (addCategory ri cat)"
  by (simp add: addCategory_def)

lemma loadV1_categories_isl:
  "isl (loadV1_categories ri a cs) \<longleftrightarrow> list_ex category_fails cs"
proof (induction cs arbitrary: ri a)
  case Nil
  show ?case by simp
next
  case (Cons c cs)
  show ?case
  proof (cases "vc_name c = []")
    case True
    then show ?thesis by (simp add: Category_new_def category_fails_def)
  next
    case False
    define cat where "cat = \<lparr>cat_this = a, cat_index = Some (ri_this ri), cat_name = vc_name c,
        cat_packages = []\<rparr>"
    have new: "Category_new a (vc_name c) (Some (ri_this ri)) = Inr cat"
      using False by (simp add: Category_new_def cat_def)
    show ?thesis
    proof (cases "loadV1_packages cat (vc_packages c)")
      case (Inl e)
      with loadV1_packages_isl [of cat "vc_packages c"] new show ?thesis
        by (simp add: category_fails_def)
    next
      case (Inr cat')
      from loadV1_packages_fields [OF Inr] have own: "cat_index cat' = Some (ri_this ri)"
        by (simp add: cat_def)
      from addCategory_own [OF own] obtain ri1 where add: "addCategory ri cat' = Inr ri1"
        by (cases "addCategory ri cat'") auto
      from loadV1_packages_isl [of cat "vc_packages c"] Inr False
      have ok: "\<not> category_fails c" by (simp add: category_fails_def)
      from new Inr add Cons.IH [of ri1 "Suc a"] ok show ?thesis by simp
    qed
  qed
qed

lemma category_fails_cases:
  "list_ex category_fails cs \<longleftrightarrow>
     category_without_name cs \<or> package_without_name cs \<or> source_without_url cs"
  unfolding category_fails_def package_fails_def category_without_name_def
    package_without_name_def source_without_url_def list_ex_iff
  by blast

lemma loadV1_isl:
  "isl (loadV1 contents this root name) \<longleftrightarrow>
     name = [] \<or> category_without_name (contents root) \<or>
     package_without_name (contents root) \<or> source_without_url (contents root)"
proof (cases "name = []")
  case True
  then show ?thesis by (simp add: loadV1_def RemoteIndex_new_def)
next
  case False
  with loadV1_categories_isl category_fails_cases show ?thesis
    by (simp add: loadV1_def RemoteIndex_new_def)
qed

lemma atoi_examples:
  "atoi ''1'' = 1" "atoi ''1.9'' = 1" "atoi ''1abc'' = 1" "atoi '' +1'' = 1"
  "atoi ''4294967297'' = 1" "atoi ''4294967296'' = 0" "atoi ''one'' = 0" "atoi [] = 0"
  "atoi ''-2'' = - 2" "atoi ''2'' = 2" "atoi ''0'' = 0" "atoi ''4294967295'' = - 1"
  "atoi ''99999999999999999999'' = - 1"
  by (simp_all add: atoi_def strtol_def int_of_long_def isspace_def is_digit_def digit_val_def)


text \<open>
  Claim C6, as stated, fails: a file that is not well-formed XML makes \<open>load\<close> raise
  the parser's error, and this is none of the four listed cases.
\<close>

theorem C6_counterexample:
  "load ex_loadV1 (LoadFailed ''Error reading end tag.'') ''ReaTeam''
     = Inl (reapack_error ''Error reading end tag.'') \<and>
   \<not> listed_failure (ex_contents ''https://example.org/a.lua'')
       (LoadFailed ''Error reading end tag.'')"
  by (simp add: load_def listed_failure_def)

text \<open>
  Claim C6, amended. \<open>load\<close> raises an error for a file that cannot be opened and for a
  file whose XML does not load. For a document with a root element the version is the
  attribute \<open>version\<close> read by \<open>atoi\<close> into an \<open>int\<close> (\<open>0\<close> when the attribute is missing):
  optional white space, an optional sign and the decimal digits that follow, \<open>0\<close> when
  there is none, reduced to 32 bits. \<open>load\<close> raises "invalid index" when the root tag is
  not \<open>index\<close>, "invalid version" when the version is \<open>0\<close>, and "unsupported version"
  when it is neither \<open>0\<close> nor \<open>1\<close>; when it is \<open>1\<close> the result is the reader's, whatever
  the reader is. With the reader of version 1 documents, \<open>load\<close> raises an error exactly
  when the root tag is not \<open>index\<close>, or the version is not \<open>1\<close>, or the name given to
  the index is empty, or the document has a category without name, a package without
  name, or a source without URL. An error and an index exclude each other.
\<close>

theorem C6_load_failures:
  "load reader (CannotOpen m) name = Inl (reapack_error m) \<and>
   load reader (LoadFailed m) name = Inl (reapack_error m) \<and>
   (el_value root \<noteq> ''index'' \<longrightarrow>
      load reader (Document (Some root)) name = Inl (reapack_error ''invalid index'')) \<and>
   (el_value root = ''index'' \<and> Attribute_int root ''version'' = 0 \<longrightarrow>
      load reader (Document (Some root)) name = Inl (reapack_error ''invalid version'')) \<and>
   (el_value root = ''index'' \<and> Attribute_int root ''version'' \<noteq> 0 \<and>
    Attribute_int root ''version'' \<noteq> 1 \<longrightarrow>
      load reader (Document (Some root)) name = Inl (reapack_error ''unsupported version'')) \<and>
   (el_value root = ''index'' \<and> Attribute_int root ''version'' = 1 \<longrightarrow>
      load reader (Document (Some root)) name = reader root name) \<and>
   (map_of (el_attributes root) ''version'' = None \<longrightarrow> Attribute_int root ''version'' = 0) \<and>
   (map_of (el_attributes root) ''version'' = Some v \<longrightarrow>
      Attribute_int root ''version'' = int_of_long (strtol v) \<and>
      - 2147483648 \<le> Attribute_int root ''version'' \<and> Attribute_int root ''version'' < 2147483648) \<and>
   (isl (load (loadV1 contents this) (Document (Some root)) name) \<longleftrightarrow>
      el_value root \<noteq> ''index'' \<or> Attribute_int root ''version'' = 0 \<or>
      Attribute_int root ''version'' \<noteq> 1 \<or> name = [] \<or>
      category_without_name (contents root) \<or> package_without_name (contents root) \<or>
      source_without_url (contents root)) \<and>
   (isl (load reader file name) \<longrightarrow> (\<forall>ri. load reader file name \<noteq> Inr ri))"
proof -
  have a: "load reader (CannotOpen m) name = Inl (reapack_error m)"
    and b: "load reader (LoadFailed m) name = Inl (reapack_error m)"
    by (simp_all add: load_def)
  have c: "el_value root \<noteq> ''index'' \<longrightarrow>
      load reader (Document (Some root)) name = Inl (reapack_error ''invalid index'')"
    and d: "el_value root = ''index'' \<and> Attribute_int root ''version'' = 0 \<longrightarrow>
      load reader (Document (Some root)) name = Inl (reapack_error ''invalid version'')"
    and e: "el_value root = ''index'' \<and> Attribute_int root ''version'' \<noteq> 0 \<and>
      Attribute_int root ''version'' \<noteq> 1 \<longrightarrow>
      load reader (Document (Some root)) name = Inl (reapack_error ''unsupported version'')"
    and f: "el_value root = ''index'' \<and> Attribute_int root ''version'' = 1 \<longrightarrow>
      load reader (Document (Some root)) name = reader root name"
    by (simp_all add: load_def Let_def)
  have g: "map_of (el_attributes root) ''version'' = None \<longrightarrow> Attribute_int root ''version'' = 0"
    by (simp add: Attribute_int_def)
  have h: "map_of (el_attributes root) ''version'' = Some v \<longrightarrow>
      Attribute_int root ''version'' = int_of_long (strtol v) \<and>
      - 2147483648 \<le> Attribute_int root ''version'' \<and> Attribute_int root ''version'' < 2147483648"
    by (simp add: Attribute_int_def atoi_def int_of_long_def)
  have i: "isl (load (loadV1 contents this) (Document (Some root)) name) \<longleftrightarrow>
      el_value root \<noteq> ''index'' \<or> Attribute_int root ''version'' = 0 \<or>
      Attribute_int root ''version'' \<noteq> 1 \<or> name = [] \<or>
      category_without_name (contents root) \<or> package_without_name (contents root) \<or>
      source_without_url (contents root)"
    using loadV1_isl [of contents this root name] by (auto simp: load_def Let_def)
  have j: "isl (load reader file name) \<longrightarrow> (\<forall>ri. load reader file name \<noteq> Inr ri)"
    by auto
  from a b c d e f g h i j show ?thesis by blast
qed

lemma ex_loadV1_reads:
  "ex_loadV1 root ''ReaTeam'' = Inr ex_built_index"
  "ex_loadV1 root [] = Inl (reapack_error ''empty index name'')"
  "loadV1 (ex_contents []) 1 root ''ReaTeam'' = Inl (reapack_error ''empty source url'')"
  by (simp_all add: ex_loadV1_def loadV1_def RemoteIndex_new_def ex_contents_def Category_new_def
      Package_new_def convertType_def setCategory_def Source_new_def Version_new_def
      addVersion_def addPackage_def addCategory_def ex_built_index_def ex_index_def
      ex_built_category_def ex_category_def ex_pkg_def ex_version_def ex_source_def)

theorem C6_load_failures_witness:
  "load ex_loadV1 (Document (Some (ex_root ''repository'' ''1''))) ''ReaTeam''
     = Inl (reapack_error ''invalid index'') \<and>
   load ex_loadV1 (Document (Some (ex_root ''index'' ''one''))) ''ReaTeam''
     = Inl (reapack_error ''invalid version'') \<and>
   load ex_loadV1 (Document (Some (Element ''index'' [] []))) ''ReaTeam''
     = Inl (reapack_error ''invalid version'') \<and>
   load ex_loadV1 (Document (Some (ex_root ''index'' ''4294967296''))) ''ReaTeam''
     = Inl (reapack_error ''invalid version'') \<and>
   load ex_loadV1 (Document (Some (ex_root ''index'' ''-2''))) ''ReaTeam''
     = Inl (reapack_error ''unsupported version'') \<and>
   load ex_loadV1 (Document (Some (ex_root ''index'' ''1''))) ''ReaTeam'' = Inr ex_built_index \<and>
   load ex_loadV1 (Document (Some (ex_root ''index'' ''1.9''))) ''ReaTeam'' = Inr ex_built_index \<and>
   map_of (el_attributes (ex_root ''index'' ''4294967297'')) ''version'' = Some ''4294967297'' \<and>
   Attribute_int (ex_root ''index'' ''4294967297'') ''version''
     = int_of_long (strtol ''4294967297'') \<and>
   int_of_long (strtol ''4294967297'') = 1 \<and>
   load ex_loadV1 (Document (Some (ex_root ''index'' ''4294967297''))) ''ReaTeam''
     = Inr ex_built_index \<and>
   load ex_loadV1 (Document (Some (ex_root ''index'' ''1''))) []
     = Inl (reapack_error ''empty index name'') \<and>
   source_without_url (ex_contents [] (ex_root ''index'' ''1'')) \<and>
   isl (load (loadV1 (ex_contents []) 1) (Document (Some (ex_root ''index'' ''1''))) ''ReaTeam'') \<and>
   load (loadV1 (ex_contents []) 1) (Document (Some (ex_root ''index'' ''1''))) ''ReaTeam''
     = Inl (reapack_error ''empty source url'')"
proof -
  have v: "Attribute_int (ex_root tag ''1'') ''version'' = 1"
          "Attribute_int (ex_root tag ''1.9'') ''version'' = 1"
          "Attribute_int (ex_root tag ''4294967297'') ''version'' = 1"
          "Attribute_int (ex_root tag ''4294967296'') ''version'' = 0"
          "Attribute_int (ex_root tag ''one'') ''version'' = 0"
          "Attribute_int (ex_root tag ''-2'') ''version'' = - 2"
          "Attribute_int (Element ''index'' [] []) ''version'' = 0" for tag
    by (simp_all add: Attribute_int_def ex_root_def atoi_def strtol_def int_of_long_def
        isspace_def is_digit_def digit_val_def)
  have t: "el_value (ex_root tag x) = tag" "el_value (Element ''index'' [] []) = ''index''" for tag x
    by (simp_all add: ex_root_def)
  have s: "source_without_url (ex_contents [] (ex_root ''index'' ''1''))"
    by (simp add: source_without_url_def ex_contents_def)
  note inst = C6_load_failures [of _ "[]" _ _ "[]" _ _ "CannotOpen []"]
  have p1: "load ex_loadV1 (Document (Some (ex_root ''repository'' ''1''))) ''ReaTeam''
     = Inl (reapack_error ''invalid index'')"
    using inst [of ex_loadV1 "''ReaTeam''" "ex_root ''repository'' ''1''"] t by simp
  have p2: "load ex_loadV1 (Document (Some (ex_root ''index'' ''one''))) ''ReaTeam''
     = Inl (reapack_error ''invalid version'')"
    using inst [of ex_loadV1 "''ReaTeam''" "ex_root ''index'' ''one''"] t v by simp
  have p3: "load ex_loadV1 (Document (Some (Element ''index'' [] []))) ''ReaTeam''
     = Inl (reapack_error ''invalid version'')"
    using inst [of ex_loadV1 "''ReaTeam''" "Element ''index'' [] []"] t v by simp
  have p4: "load ex_loadV1 (Document (Some (ex_root ''index'' ''4294967296''))) ''ReaTeam''
     = Inl (reapack_error ''invalid version'')"
    using inst [of ex_loadV1 "''ReaTeam''" "ex_root ''index'' ''4294967296''"] t v by simp
  have p5: "load ex_loadV1 (Document (Some (ex_root ''index'' ''-2''))) ''ReaTeam''
     = Inl (reapack_error ''unsupported version'')"
    using inst [of ex_loadV1 "''ReaTeam''" "ex_root ''index'' ''-2''"] t v by simp
  have p6: "load ex_loadV1 (Document (Some (ex_root ''index'' ''1''))) ''ReaTeam'' = Inr ex_built_index"
    using inst [of ex_loadV1 "''ReaTeam''" "ex_root ''index'' ''1''"] t v ex_loadV1_reads by simp
  have p7: "load ex_loadV1 (Document (Some (ex_root ''index'' ''1.9''))) ''ReaTeam'' = Inr ex_built_index"
    using inst [of ex_loadV1 "''ReaTeam''" "ex_root ''index'' ''1.9''"] t v ex_loadV1_reads by simp
  have p8: "load ex_loadV1 (Document (Some (ex_root ''index'' ''4294967297''))) ''ReaTeam''
     = Inr ex_built_index"
    using inst [of ex_loadV1 "''ReaTeam''" "ex_root ''index'' ''4294967297''"] t v ex_loadV1_reads
    by simp
  have a: "map_of (el_attributes (ex_root ''index'' ''4294967297'')) ''version'' = Some ''4294967297''"
    by (simp add: ex_root_def)
  have q1: "Attribute_int (ex_root ''index'' ''4294967297'') ''version''
     = int_of_long (strtol ''4294967297'')"
    using C6_load_failures [of ex_loadV1 "[]" "''ReaTeam''" "ex_root ''index'' ''4294967297''"
        "''4294967297''" "ex_contents []" 1 "CannotOpen []"] a
    by blast
  have q2: "int_of_long (strtol ''4294967297'') = 1"
    using q1 v by simp
  have p9: "load ex_loadV1 (Document (Some (ex_root ''index'' ''1''))) []
     = Inl (reapack_error ''empty index name'')"
    using inst [of ex_loadV1 "[]" "ex_root ''index'' ''1''"] t v ex_loadV1_reads by simp
  have p10: "isl (load (loadV1 (ex_contents []) 1) (Document (Some (ex_root ''index'' ''1''))) ''ReaTeam'')"
    using inst [of "loadV1 (ex_contents []) 1" "''ReaTeam''" "ex_root ''index'' ''1''" "ex_contents []" 1] s
    by blast
  have p11: "load (loadV1 (ex_contents []) 1) (Document (Some (ex_root ''index'' ''1''))) ''ReaTeam''
     = Inl (reapack_error ''empty source url'')"
    using inst [of "loadV1 (ex_contents []) 1" "''ReaTeam''" "ex_root ''index'' ''1''"] t v
      ex_loadV1_reads by simp
  from p1 p2 p3 p4 p5 p6 p7 a q1 q2 p8 p9 s p10 p11 show ?thesis by blast
qed

subsection \<open>Transaction: finishing, cancelling and what is committed\<close>

lemma commits_append: "commits (xs @ ys) = commits xs @ commits ys"
  by (simp add: commits_def)

lemma commits_rollbacks: "commits (map Task_rollback ts) = []"
  by (induction ts) (simp_all add: commits_def)

lemma commits_pushes: "commits (map (\<lambda>x. Queue_push (f x) (g x)) xs) = []"
  by (induction xs) (simp_all add: commits_def)

lemma emit_fields:
  "trace (emit es s) = trace s @ es"
  "m_isCancelled (emit es s) = m_isCancelled s"
  "m_tasks (emit es s) = m_tasks s"
  "m_queue (emit es s) = m_queue s"
  "m_step (emit es s) = m_step s"
  "m_errors (emit es s) = m_errors s"
  "m_hasConflicts (emit es s) = m_hasConflicts s"
  "m_packages (emit es s) = m_packages s"
  "m_files (emit es s) = m_files s"
  "m_remoteIndexes (emit es s) = m_remoteIndexes s"
  by (simp_all add: emit_def)

lemma finish_trace:
  "trace (finish s) =
     trace s @ (if m_isCancelled s then [] else map Task_commit (m_tasks s) @ [Registry_commit])
       @ [OnFinish, OnDestroy]"
  by (simp add: finish_def emit_fields)

lemma finish_fields:
  "m_isCancelled (finish s) = m_isCancelled s"
  "m_tasks (finish s) = m_tasks s"
  "m_queue (finish s) = m_queue s"
  "m_step (finish s) = m_step s"
  "m_errors (finish s) = m_errors s"
  "m_hasConflicts (finish s) = m_hasConflicts s"
  "m_packages (finish s) = m_packages s"
  "m_files (finish s) = m_files s"
  "m_remoteIndexes (finish s) = m_remoteIndexes s"
  by (simp_all add: finish_def emit_fields Let_def)

lemma still_refl: "m_isCancelled s \<Longrightarrow> still s s"
  by (simp add: still_def)

lemma still_trans: "still s s1 \<Longrightarrow> still s1 s2 \<Longrightarrow> still s s2"
  by (simp add: still_def)

lemma still_finish: "m_isCancelled s \<Longrightarrow> still s (finish s)"
  by (simp add: still_def finish_trace finish_fields commits_def)

lemma still_addTask: "m_isCancelled s \<Longrightarrow> still s (addTask t s)"
  by (simp add: still_def addTask_def Let_def finish_trace finish_fields commits_def)

lemma still_cancel: "still s (cancel s)"
  by (simp add: still_def cancel_def Let_def finish_trace finish_fields emit_fields
      commits_append commits_rollbacks) (simp add: commits_def)

lemma still_synchronize: "m_isCancelled s \<Longrightarrow> still s (synchronize r s)"
  by (simp add: still_def synchronize_def emit_fields commits_def)

lemma still_install_loop: "m_isCancelled s \<Longrightarrow> still s (install_loop w es s)"
proof (induction es arbitrary: s)
  case Nil
  then show ?case by (simp add: still_refl)
next
  case (Cons e es)
  obtain ver regEntry where e: "e = (ver, regEntry)" by (cases e)
  let ?s1 = "snd (InstallTask_new ver (reg_getFiles w regEntry) s)"
  let ?t = "fst (InstallTask_new ver (reg_getFiles w regEntry) s)"
  have a: "still s ?s1"
    using Cons.prems
    by (simp add: still_def InstallTask_new_def emit_fields commits_append commits_pushes)
  then have "m_isCancelled ?s1" by (simp add: still_def)
  then have b: "still ?s1 (addTask ?t ?s1)" by (rule still_addTask)
  then have "m_isCancelled (addTask ?t ?s1)" by (simp add: still_def)
  then have c: "still (addTask ?t ?s1) (install_loop w es (addTask ?t ?s1))" by (rule Cons.IH)
  have "install_loop w (e # es) s = install_loop w es (addTask ?t ?s1)"
    by (simp add: e split: prod.splits)
  with a b c show ?case by (metis still_trans)
qed

lemma still_install: "m_isCancelled s \<Longrightarrow> still s (install w s)"
proof -
  assume c: "m_isCancelled s"
  have "still s (s\<lparr>m_step := Install\<rparr>)" using c by (simp add: still_def)
  moreover have "still (s\<lparr>m_step := Install\<rparr>) (install_loop w (m_packages s) (s\<lparr>m_step := Install\<rparr>))"
    using c by (intro still_install_loop) simp
  ultimately show ?thesis unfolding install_def by (rule still_trans)
qed

lemma still_uninstall_loop: "m_isCancelled s \<Longrightarrow> still s (uninstall_loop w es s)"
proof (induction es arbitrary: s)
  case Nil
  then show ?case by (simp add: still_refl)
next
  case (Cons e es)
  let ?s1 = "addTask (RemoveTask (reg_getFiles w e)) s"
  have a: "still s ?s1" using Cons.prems by (rule still_addTask)
  then have "m_isCancelled ?s1" by (simp add: still_def)
  then have "still ?s1 (uninstall_loop w es ?s1)" by (rule Cons.IH)
  with a show ?case by (simp add: still_trans)
qed

lemma still_uninstall: "m_isCancelled s \<Longrightarrow> still s (uninstall w r s)"
  by (simp add: uninstall_def Let_def still_cancel still_uninstall_loop)

lemma still_saveRemoteIndex:
  "m_isCancelled s \<Longrightarrow> saveRemoteIndex w dl s = Some s' \<Longrightarrow> still s s'"
  by (auto simp: saveRemoteIndex_def saveFile_def Let_def still_def addError_def emit_fields
      commits_def split: if_splits option.splits sum.splits error.splits)

lemma registerFiles_loop_run:
  "trace (registerFiles_loop w l s) = trace s \<and>
   m_isCancelled (registerFiles_loop w l s) = m_isCancelled s \<and>
   m_tasks (registerFiles_loop w l s) = m_tasks s \<and>
   m_queue (registerFiles_loop w l s) = m_queue s \<and>
   m_step (registerFiles_loop w l s) = m_step s \<and>
   m_packages (registerFiles_loop w l s) = m_packages s \<and>
   m_files (registerFiles_loop w l s) = m_files s"
  by (induction l arbitrary: s) (simp_all add: addError_def)

lemma registerFiles_run:
  "trace (registerFiles w l s) = trace s \<and>
   m_isCancelled (registerFiles w l s) = m_isCancelled s \<and>
   m_tasks (registerFiles w l s) = m_tasks s \<and>
   m_queue (registerFiles w l s) = m_queue s \<and>
   m_step (registerFiles w l s) = m_step s \<and>
   m_packages (registerFiles w l s) = m_packages s \<and>
   m_files (registerFiles w l s) = m_files s \<union> set l"
  by (simp add: registerFiles_def Let_def registerFiles_loop_run)

lemma updateAll_package_run:
  "updateAll_package w pkg s = Some s' \<Longrightarrow>
   trace s' = trace s \<and> m_isCancelled s' = m_isCancelled s \<and> m_tasks s' = m_tasks s \<and>
   m_queue s' = m_queue s \<and> m_step s' = m_step s"
  by (auto simp: updateAll_package_def Let_def registerFiles_run split: option.splits if_splits)

lemma updateAll_packages_run:
  "updateAll_packages w pkgs s = Some s' \<Longrightarrow>
   trace s' = trace s \<and> m_isCancelled s' = m_isCancelled s \<and> m_tasks s' = m_tasks s \<and>
   m_queue s' = m_queue s \<and> m_step s' = m_step s"
proof (induction pkgs arbitrary: s)
  case Nil
  then show ?case by simp
next
  case (Cons pkg pkgs)
  from Cons.prems obtain s1 where s1: "updateAll_package w pkg s = Some s1"
    and rest: "updateAll_packages w pkgs s1 = Some s'"
    by (auto split: option.splits)
  from updateAll_package_run [OF s1] Cons.IH [OF rest] show ?case by simp
qed

lemma updateAll_indexes_run:
  "updateAll_indexes w ris s = Some s' \<Longrightarrow>
   trace s' = trace s \<and> m_isCancelled s' = m_isCancelled s \<and> m_tasks s' = m_tasks s \<and>
   m_queue s' = m_queue s \<and> m_step s' = m_step s"
proof (induction ris arbitrary: s)
  case Nil
  then show ?case by simp
next
  case (Cons ri ris)
  from Cons.prems obtain s1 where s1: "updateAll_packages w (ri_packages ri) s = Some s1"
    and rest: "updateAll_indexes w ris s1 = Some s'"
    by (auto split: option.splits)
  from updateAll_packages_run [OF s1] Cons.IH [OF rest] show ?case by simp
qed

lemma still_updateAll:
  assumes c: "m_isCancelled s" and u: "updateAll w s = Some s'"
  shows "still s s'"
proof -
  from u obtain s1 where s1: "updateAll_indexes w (m_remoteIndexes s) s = Some s1"
    and s': "s' = finish s1 \<or> s' = install w s1"
    by (auto simp: updateAll_def split: option.splits if_splits)
  from updateAll_indexes_run [OF s1] c have a: "still s s1" by (simp add: still_def)
  then have "m_isCancelled s1" by (simp add: still_def)
  then have "still s1 (finish s1)" "still s1 (install w s1)"
    by (simp_all add: still_finish still_install)
  with a s' show ?thesis by (metis still_trans)
qed

lemma still_onDone: "m_isCancelled s \<Longrightarrow> onDone w s = Some s' \<Longrightarrow> still s s'"
  by (cases "m_step s") (auto simp: onDone_def still_updateAll still_finish)

lemma still_act: "m_isCancelled s \<Longrightarrow> act w a s = Some s' \<Longrightarrow> still s s'"
proof (cases a)
  case (Jobs n)
  assume "m_isCancelled s" "act w a s = Some s'"
  with Jobs show ?thesis by (auto simp: still_def)
next
  case (File_downloaded dl p)
  assume "m_isCancelled s" "act w a s = Some s'"
  with File_downloaded show ?thesis
    by (auto simp: still_def saveFile_def Let_def addError_def emit_fields commits_def
        split: if_splits option.splits)
next
  case (Error_added message title)
  assume "m_isCancelled s" "act w a s = Some s'"
  with Error_added show ?thesis by (auto simp: still_def addError_def)
qed (auto simp: still_synchronize still_uninstall still_cancel still_saveRemoteIndex still_onDone)

lemma still_acts: "m_isCancelled s \<Longrightarrow> acts w as s = Some s' \<Longrightarrow> still s s'"
proof (induction as arbitrary: s)
  case Nil
  then show ?case by (simp add: still_refl)
next
  case (Cons a as)
  from Cons.prems(2) obtain s1 where s1: "act w a s = Some s1" and rest: "acts w as s1 = Some s'"
    by (auto split: option.splits)
  from Cons.prems(1) s1 have a: "still s s1" by (rule still_act)
  then have "m_isCancelled s1" by (simp add: still_def)
  from Cons.IH [OF this rest] a show ?case by (metis still_trans)
qed

text \<open>
  What \<open>cancel\<close> does, and what can follow it. \<open>cancel\<close> sets the cancelled flag and
  calls \<open>rollback\<close> on every task created so far, in order; then, when the queue is
  idle, it finishes at once (only the two observers are called), and otherwise it asks
  the queue to abort and does not finish. At a step other than \<open>Synchronize\<close> the
  callback of the drained queue then finishes. Whatever happens to the transaction after
  the cancellation, it stays cancelled and no task and no registry is committed any more.
\<close>

lemma cancel_then_no_commit:
  "m_isCancelled (cancel s) \<and>
   trace (cancel s) =
     trace s @ map Task_rollback (m_tasks s)
       @ (if idle s then [OnFinish, OnDestroy] else [Queue_abort]) \<and>
   (idle s \<longrightarrow> cancel s = finish (emit (map Task_rollback (m_tasks s)) (s\<lparr>m_isCancelled := True\<rparr>))) \<and>
   (\<not> idle s \<and> m_step s \<noteq> Synchronize \<longrightarrow>
      onDone w (cancel s) = Some (finish (cancel s)) \<and>
      trace (finish (cancel s)) = trace (cancel s) @ [OnFinish, OnDestroy]) \<and>
   (acts w as (cancel s) = Some s' \<longrightarrow>
      m_isCancelled s' \<and> commits (trace s') = commits (trace s))"
proof -
  have a: "m_isCancelled (cancel s)"
    using still_cancel [of s] by (simp add: still_def)
  have b: "trace (cancel s) =
     trace s @ map Task_rollback (m_tasks s)
       @ (if idle s then [OnFinish, OnDestroy] else [Queue_abort])"
    by (simp add: cancel_def Let_def idle_def finish_trace emit_fields)
  have c: "idle s \<longrightarrow> cancel s = finish (emit (map Task_rollback (m_tasks s)) (s\<lparr>m_isCancelled := True\<rparr>))"
    by (simp add: cancel_def Let_def idle_def emit_fields)
  have step: "m_step (cancel s) = m_step s"
    by (simp add: cancel_def Let_def finish_fields emit_fields)
  have d: "\<not> idle s \<and> m_step s \<noteq> Synchronize \<longrightarrow>
      onDone w (cancel s) = Some (finish (cancel s)) \<and>
      trace (finish (cancel s)) = trace (cancel s) @ [OnFinish, OnDestroy]"
    using a by (cases "m_step s") (simp_all add: onDone_def step finish_trace)
  have e: "acts w as (cancel s) = Some s' \<longrightarrow>
      m_isCancelled s' \<and> commits (trace s') = commits (trace s)"
  proof
    assume "acts w as (cancel s) = Some s'"
    with a have "still (cancel s) s'" by (rule still_acts)
    with still_cancel [of s] have "still s s'" by (rule still_trans)
    then show "m_isCancelled s' \<and> commits (trace s') = commits (trace s)"
      by (simp add: still_def)
  qed
  from a b c d e show ?thesis by blast
qed

text \<open>
  At the step \<open>Synchronize\<close> the callback of the drained queue is \<open>updateAll\<close>, which
  does not test the cancelled flag: when the pass finds a package to install and no
  conflict, \<open>install\<close> is entered and the transaction does not finish at this signal.
\<close>

lemma drain_after_cancel_at_Synchronize:
  assumes "\<not> idle s" and "m_step s = Synchronize"
    and "updateAll_indexes w (m_remoteIndexes s) (cancel s) = Some s1"
    and "m_packages s1 \<noteq> []" and "\<not> m_hasConflicts s1"
  shows "onDone w (cancel s) = Some (install w s1)"
proof -
  have step: "m_step (cancel s) = m_step s"
    by (simp add: cancel_def Let_def finish_fields emit_fields)
  have idx: "m_remoteIndexes (cancel s) = m_remoteIndexes s"
    by (simp add: cancel_def Let_def finish_fields emit_fields)
  from assms step idx show ?thesis by (simp add: onDone_def updateAll_def)
qed

lemma ex_world_fields:
  "reg_query ex_world pkg = \<lparr>ent_id = 0, ent_status = Uninstalled\<rparr>"
  "reg_queryAll ex_world r = (if rem_name r = ''ReaTeam'' then [ex_entry 1, ex_entry 2] else [])"
  "reg_getFiles ex_world e = [[''Scripts'', show_nat (ent_id e) @ ''.lua'']]"
  "file_exists ex_world f = False"
  "path_join ex_world = join_slash"
  "path_dirname ex_world p = join_slash (butlast p)"
  "open_error ex_world f = None"
  "RemoteIndex_load ex_world name file contents = Inr ex_built_index"
  by (simp_all add: ex_world_def ex_world_loading_def)

lemma ex_installing_reached:
  "acts ex_world [Do_synchronize ex_remote, Index_downloaded ex_finished_download, Jobs 0, Queue_done]
     (Transaction_new ex_world [''root'']) = Some ex_installing"
  by (simp add: Transaction_new_def synchronize_def emit_def saveRemoteIndex_def saveFile_def
      ex_finished_download_def ex_remote_def ex_world_fields join_slash_def onDone_def
      updateAll_def updateAll_package_def lastVersion_def registerFiles_def Let_def
      ex_built_index_def ex_index_def ex_pkg_def ex_version_def ex_source_def
      ex_built_category_def ex_category_def
      install_def InstallTask_new_def addTask_def idle_def ex_installing_def digit_char_def)

lemma cancel_then_no_commit_example:
  "acts ex_world [Do_synchronize ex_remote, Index_downloaded ex_finished_download, Jobs 0, Queue_done]
     (Transaction_new ex_world [''root'']) = Some ex_installing \<and>
   \<not> idle ex_installing \<and> m_step ex_installing \<noteq> Synchronize \<and>
   m_isCancelled (cancel ex_installing) \<and>
   trace (cancel ex_installing) =
     trace ex_installing
       @ [Task_rollback (InstallTask (ex_version ''1.0'') [[''Scripts'', ''0.lua'']]), Queue_abort] \<and>
   onDone ex_world (cancel ex_installing) = Some (finish (cancel ex_installing)) \<and>
   trace (finish (cancel ex_installing)) = trace (cancel ex_installing) @ [OnFinish, OnDestroy] \<and>
   acts ex_world [Jobs 0, Queue_done] (cancel ex_installing)
     = Some (finish ((cancel ex_installing)\<lparr>m_queue := 0\<rparr>)) \<and>
   commits (trace (finish ((cancel ex_installing)\<lparr>m_queue := 0\<rparr>))) = [] \<and>
   idle (Transaction_new ex_world [''root'']) \<and>
   trace (cancel (Transaction_new ex_world [''root''])) =
     [CreateDirectory ''root/ReaPack'', OnFinish, OnDestroy]"
proof -
  have busy: "\<not> idle ex_installing" "m_step ex_installing \<noteq> Synchronize"
    and tasks: "m_tasks ex_installing = [InstallTask (ex_version ''1.0'') [[''Scripts'', ''0.lua'']]]"
    and none: "commits (trace ex_installing) = []"
    by (simp_all add: ex_installing_def idle_def commits_def)
  have step: "m_step (cancel ex_installing) = Install"
    by (simp add: cancel_def Let_def idle_def emit_def ex_installing_def)
  have run: "acts ex_world [Jobs 0, Queue_done] (cancel ex_installing)
     = Some (finish ((cancel ex_installing)\<lparr>m_queue := 0\<rparr>))"
    by (simp add: onDone_def step)
  have fresh: "idle (Transaction_new ex_world [''root''])"
    "trace (Transaction_new ex_world [''root'']) = [CreateDirectory ''root/ReaPack'']"
    "m_tasks (Transaction_new ex_world [''root'']) = []"
    by (simp_all add: Transaction_new_def idle_def ex_world_fields join_slash_def)
  note one = cancel_then_no_commit [of ex_installing ex_world "[Jobs 0, Queue_done]"
      "finish ((cancel ex_installing)\<lparr>m_queue := 0\<rparr>)"]
  note two = cancel_then_no_commit [of "Transaction_new ex_world [''root'']" ex_world "[]"
      "cancel (Transaction_new ex_world [''root''])", THEN conjunct2, THEN conjunct1]
  have p1: "m_isCancelled (cancel ex_installing)" using one by blast
  have p2: "trace (cancel ex_installing) =
     trace ex_installing
       @ [Task_rollback (InstallTask (ex_version ''1.0'') [[''Scripts'', ''0.lua'']]), Queue_abort]"
    using one busy tasks by simp
  have p3: "onDone ex_world (cancel ex_installing) = Some (finish (cancel ex_installing)) \<and>
     trace (finish (cancel ex_installing)) = trace (cancel ex_installing) @ [OnFinish, OnDestroy]"
    using one busy by blast
  have p4: "commits (trace (finish ((cancel ex_installing)\<lparr>m_queue := 0\<rparr>))) = []"
    using one run none by simp
  have p5: "trace (cancel (Transaction_new ex_world [''root''])) =
     [CreateDirectory ''root/ReaPack'', OnFinish, OnDestroy]"
    using two fresh by simp
  from ex_installing_reached busy p1 p2 p3 run p4 fresh(1) p5 show ?thesis by blast
qed

lemmas run_simps =
  Transaction_new_def synchronize_def emit_def saveRemoteIndex_def saveFile_def
  ex_finished_download_def ex_other_download_def ex_aborted_download_def
  ex_remote_def ex_other_remote_def join_slash_def onDone_def
  updateAll_def updateAll_package_def lastVersion_def registerFiles_def Let_def
  ex_built_index_def ex_index_def ex_pkg_def ex_pkg_b_def ex_version_def ex_source_def
  ex_built_category_def ex_category_def ex_conflict_index_def ex_conflict_category_def
  ex_other_index_def ex_other_package_def
  install_def InstallTask_new_def addTask_def idle_def digit_char_def
  uninstall_def cancel_def finish_def addError_def ex_entry_def

text \<open>
  Claim C4, at a failing input. Two remotes are synchronised; the index of the first is
  downloaded and stored; \<open>cancel\<close> is called while the download of the second is in
  flight: the flag is set, there is no task to roll back, and the queue is asked to
  abort. The second download ends aborted and the queue is drained. The transaction does
  not finish there: the step is still \<open>Synchronize\<close>, so the callback runs \<open>updateAll\<close>,
  which does not test the flag and enters \<open>install\<close>: an \<open>InstallTask\<close> is created for
  the package of the first index and its download is queued; no observer is called. The
  transaction finishes only when the queue is drained again, and the task created after
  the cancellation is neither committed nor rolled back.
\<close>

theorem C4_drain_after_cancel_installs:
  "acts ex_world
     [Do_synchronize ex_remote, Do_synchronize ex_other_remote,
      Index_downloaded ex_finished_download, Jobs 1, Do_cancel,
      Index_downloaded ex_aborted_download, Jobs 0, Queue_done]
     (Transaction_new ex_world [''root''])
   = Some \<lparr>m_root = [''root''], m_dbPath = [''root'', ''ReaPack''], m_step = Install,
      m_isCancelled = True, m_hasConflicts = False, m_remoteIndexes = [ex_built_index],
      m_packages = [(ex_version ''1.0'', \<lparr>ent_id = 0, ent_status = Uninstalled\<rparr>)],
      m_tasks = [InstallTask (ex_version ''1.0'') [[''Scripts'', ''0.lua'']]],
      m_files = {[''Scripts'', ''a.lua'']},
      m_errors = [(''aborted by user'', ''https://example.org/other.xml'')], m_queue = 1,
      trace = [CreateDirectory ''root/ReaPack'',
               Queue_push ''ReaTeam'' ''https://example.org/index.xml'',
               Queue_push ''Other'' ''https://example.org/other.xml'',
               CreateDirectory ''root/ReaPack'',
               WriteFile ''root/ReaPack/remote_ReaTeam.xml'' ''index'',
               Queue_abort,
               Queue_push ''1.0'' ''https://example.org/a.lua'']\<rparr> \<and>
   map_option trace (acts ex_world
     [Do_synchronize ex_remote, Do_synchronize ex_other_remote,
      Index_downloaded ex_finished_download, Jobs 1, Do_cancel,
      Index_downloaded ex_aborted_download, Jobs 0, Queue_done, Jobs 0, Queue_done]
     (Transaction_new ex_world [''root'']))
   = Some [CreateDirectory ''root/ReaPack'',
           Queue_push ''ReaTeam'' ''https://example.org/index.xml'',
           Queue_push ''Other'' ''https://example.org/other.xml'',
           CreateDirectory ''root/ReaPack'',
           WriteFile ''root/ReaPack/remote_ReaTeam.xml'' ''index'',
           Queue_abort,
           Queue_push ''1.0'' ''https://example.org/a.lua'',
           OnFinish, OnDestroy]"
proof -
  have a: "acts ex_world
     [Do_synchronize ex_remote, Do_synchronize ex_other_remote,
      Index_downloaded ex_finished_download, Jobs 1, Do_cancel,
      Index_downloaded ex_aborted_download, Jobs 0, Queue_done]
     (Transaction_new ex_world [''root''])
   = Some \<lparr>m_root = [''root''], m_dbPath = [''root'', ''ReaPack''], m_step = Install,
      m_isCancelled = True, m_hasConflicts = False, m_remoteIndexes = [ex_built_index],
      m_packages = [(ex_version ''1.0'', \<lparr>ent_id = 0, ent_status = Uninstalled\<rparr>)],
      m_tasks = [InstallTask (ex_version ''1.0'') [[''Scripts'', ''0.lua'']]],
      m_files = {[''Scripts'', ''a.lua'']},
      m_errors = [(''aborted by user'', ''https://example.org/other.xml'')], m_queue = 1,
      trace = [CreateDirectory ''root/ReaPack'',
               Queue_push ''ReaTeam'' ''https://example.org/index.xml'',
               Queue_push ''Other'' ''https://example.org/other.xml'',
               CreateDirectory ''root/ReaPack'',
               WriteFile ''root/ReaPack/remote_ReaTeam.xml'' ''index'',
               Queue_abort,
               Queue_push ''1.0'' ''https://example.org/a.lua'']\<rparr>"
    by (simp add: run_simps ex_world_fields)
  have b: "map_option trace (acts ex_world
     [Do_synchronize ex_remote, Do_synchronize ex_other_remote,
      Index_downloaded ex_finished_download, Jobs 1, Do_cancel,
      Index_downloaded ex_aborted_download, Jobs 0, Queue_done, Jobs 0, Queue_done]
     (Transaction_new ex_world [''root'']))
   = Some [CreateDirectory ''root/ReaPack'',
           Queue_push ''ReaTeam'' ''https://example.org/index.xml'',
           Queue_push ''Other'' ''https://example.org/other.xml'',
           CreateDirectory ''root/ReaPack'',
           WriteFile ''root/ReaPack/remote_ReaTeam.xml'' ''index'',
           Queue_abort,
           Queue_push ''1.0'' ''https://example.org/a.lua'',
           OnFinish, OnDestroy]"
    by (simp add: run_simps ex_world_fields)
  from a b show ?thesis by blast
qed

text \<open>
  Claim C2, at a failing input. The registry holds two entries of the remote and the
  download queue is idle (nothing was queued). \<open>uninstall\<close> adds the first
  \<open>RemoveTask\<close>, \<open>addTask\<close> sees the idle queue and finishes: the task and the registry
  are committed and both observers are called. It then adds the second task and finishes
  again: the first task is committed a second time, the registry a second time, and
  \<open>onFinish\<close> and \<open>onDestroy\<close> are called a second time.
\<close>

theorem C2_finish_repeats_on_idle_addTask:
  "trace (uninstall ex_world ex_remote (Transaction_new ex_world [''root''])) =
     [CreateDirectory ''root/ReaPack'',
      Task_commit (RemoveTask [[''Scripts'', ''1.lua'']]), Registry_commit, OnFinish, OnDestroy,
      Task_commit (RemoveTask [[''Scripts'', ''1.lua'']]),
      Task_commit (RemoveTask [[''Scripts'', ''2.lua'']]), Registry_commit, OnFinish, OnDestroy]"
  by (simp add: uninstall_def Let_def ex_world_fields ex_remote_def ex_entry_def addTask_def
      idle_def finish_def emit_def Transaction_new_def join_slash_def digit_char_def)

lemma uninstall_loop_idle_destroys:
  "idle s \<Longrightarrow>
   length (filter (\<lambda>e. e = OnDestroy) (trace (uninstall_loop w es s)))
     = length (filter (\<lambda>e. e = OnDestroy) (trace s)) + length es"
proof (induction es arbitrary: s)
  case Nil
  then show ?case by simp
next
  case (Cons e es)
  let ?s1 = "addTask (RemoveTask (reg_getFiles w e)) s"
  have i: "idle ?s1" using Cons.prems by (simp add: addTask_def Let_def idle_def finish_fields)
  have "length (filter (\<lambda>e. e = OnDestroy) (trace ?s1))
          = Suc (length (filter (\<lambda>e. e = OnDestroy) (trace s)))"
    using Cons.prems by (simp add: addTask_def Let_def idle_def finish_trace)
  with Cons.IH [OF i] show ?case by simp
qed

subsection \<open>Transaction: conflicts between packages\<close>







lemma built_indexes_have_versions:
  assumes "\<forall>ri \<in> set (m_remoteIndexes s). built_index ri"
  shows "\<forall>pkg \<in> set (all_packages s). pkg_versions pkg \<noteq> []"
  using assms built_index_packages_have_versions
  by (fastforce simp: all_packages_def)











end
